theory Spec2Isabelle
  imports Complex_Main "HOL-Library.Sublist" "HOL-Library.Multiset" "HOL-Library.AList"
begin

section \<open>The bottle-feed analysis of \<^verbatim>\<open>src/workers/index.js\<close>\<close>

text \<open>
  The worker reads a CSV text, keeps the rows that describe bottle feeds, groups them by
  day and by time of day, and derives a week-over-week trend. This theory embeds
  \<^verbatim>\<open>parseCSVLine\<close>, \<^verbatim>\<open>analyzeBottleFeeds\<close> and \<^verbatim>\<open>calculateDailyTrends\<close> as HOL
  functions and proves the properties the specification states about them.

  Conventions of the embedding.
  \<^item> A JavaScript string is a \<^typ>\<open>string\<close>: each \<^typ>\<open>char\<close> stands for the UTF-16 code
    unit of the same number, so the texts covered are those whose code units are below 256.
  \<^item> A JavaScript number that the code obtains from digits, counting and adding is an
    \<^typ>\<open>int\<close> or a \<^typ>\<open>nat\<close>; quotients and rounded quotients are exact rationals
    (\<^typ>\<open>rat\<close>). The rounding error of IEEE doubles, and the overflow of a digit run of some
    three hundred digits to \<^verbatim>\<open>Infinity\<close>, are outside the model.
  \<^item> The one division whose divisor the code does not control, the percent change of the
    trend, yields a \<open>jsnum\<close>, which has the non-finite results of a division by zero.
    The other divisions are by a number of feeds, of events, of days or of entries of a
    window, which is not 0 where the code divides by it.
  \<^item> \<^verbatim>\<open>new Date(s)\<close> depends on the engine for all but the ISO formats. The functions
    that sort by date take the parser as the parameter \<open>dp\<close>: \<open>dp s\<close> is the time value
    of \<^verbatim>\<open>new Date(s)\<close>, or \<open>None\<close> for an invalid date (\<^verbatim>\<open>NaN\<close>).
  \<^item> A \<^verbatim>\<open>throw\<close> is a value: the analysis returns \<open>Inl\<close> of the error or \<open>Inr\<close> of
    the result.
\<close>

subsection \<open>Strings\<close>

abbreviation dquote :: char where "dquote \<equiv> CHR 0x22"
abbreviation comma :: char where "comma \<equiv> CHR '',''"
abbreviation space :: char where "space \<equiv> CHR '' ''"
abbreviation colon :: char where "colon \<equiv> CHR '':''"
abbreviation newline :: char where "newline \<equiv> CHR 0x0A"

text \<open>
  The characters that \<^verbatim>\<open>String.prototype.trim\<close> removes and \<^verbatim>\<open>parseInt\<close> skips: tab,
  line feed, vertical tab, form feed, carriage return, space and no-break space (the white
  space and line terminators below 256).
\<close>

definition isWhiteSpace :: "char \<Rightarrow> bool" where
  "isWhiteSpace c = (c \<in> set [CHR 0x09, CHR 0x0A, CHR 0x0B, CHR 0x0C, CHR 0x0D, CHR 0x20, CHR 0xA0])"

text \<open>\<^verbatim>\<open>s.trim()\<close>\<close>

definition trim :: "string \<Rightarrow> string" where
  "trim s = rev (dropWhile isWhiteSpace (rev (dropWhile isWhiteSpace s)))"

text \<open>
  \<^verbatim>\<open>s.replace(/^"|"$/g, "")\<close>: a double quote at the very start is removed, and a double
  quote at the very end of what is left is removed; the two are independent.
\<close>

definition stripQuotes :: "string \<Rightarrow> string" where
  "stripQuotes s =
     (let s1 = (case s of [] \<Rightarrow> [] | c # cs \<Rightarrow> if c = dquote then cs else s)
      in if s1 \<noteq> [] \<and> last s1 = dquote then butlast s1 else s1)"

text \<open>
  \<^verbatim>\<open>s.split(sep)\<close> for a separator of one character. The result is never empty (the empty
  string splits into one empty field), so the last case of the \<open>case\<close> is not reached.
\<close>

fun splitOn :: "char \<Rightarrow> string \<Rightarrow> string list" where
  "splitOn sep [] = [[]]"
| "splitOn sep (c # cs) =
     (if c = sep then [] # splitOn sep cs
      else (case splitOn sep cs of f # fs \<Rightarrow> (c # f) # fs | [] \<Rightarrow> [[c]]))"

text \<open>
  \<^verbatim>\<open>s.substring(start, end)\<close>: both indices are clamped to the length, and swapped when
  the start is beyond the end.
\<close>

definition substring :: "string \<Rightarrow> nat \<Rightarrow> nat \<Rightarrow> string" where
  "substring s start end =
     (let a = min start (length s); b = min end (length s)
      in take (max a b - min a b) (drop (min a b) s))"

text \<open>\<^verbatim>\<open>s.includes(t)\<close>\<close>

fun str_includes :: "string \<Rightarrow> string \<Rightarrow> bool" where
  "str_includes [] t = (t = [])"
| "str_includes (c # cs) t = (prefix t (c # cs) \<or> str_includes cs t)"

text \<open>The decimal digits, which are what \<^verbatim>\<open>\d\<close> matches and what \<^verbatim>\<open>parseInt\<close> reads.\<close>

definition isDigit :: "char \<Rightarrow> bool" where
  "isDigit c = (c \<in> set ''0123456789'')"

definition digitVal :: "char \<Rightarrow> int" where
  "digitVal c = of_char c - 48"

text \<open>The number that a string of decimal digits spells.\<close>

definition digitsVal :: "string \<Rightarrow> int" where
  "digitsVal ds = foldl (\<lambda>n c. 10 * n + digitVal c) 0 ds"

text \<open>
  \<^verbatim>\<open>s.match(/(\d+)/)\<close>: the first maximal run of decimal digits, \<open>None\<close> (the \<^verbatim>\<open>null\<close>
  match) when the string has no digit.
\<close>

definition matchDigits :: "string \<Rightarrow> string option" where
  "matchDigits s =
     (let run = takeWhile isDigit (dropWhile (\<lambda>c. \<not> isDigit c) s)
      in if run = [] then None else Some run)"

text \<open>
  \<^verbatim>\<open>parseInt(s, 10)\<close>: leading white space is skipped, one sign is read, then the longest
  prefix of decimal digits; with no digit there the result is \<^verbatim>\<open>NaN\<close>, here \<open>None\<close>.
\<close>

definition parseInt10 :: "string \<Rightarrow> int option" where
  "parseInt10 s =
     (let t = dropWhile isWhiteSpace s;
          neg = (t \<noteq> [] \<and> hd t = CHR ''-'');
          u = (if t \<noteq> [] \<and> (hd t = CHR ''-'' \<or> hd t = CHR ''+'') then tl t else t);
          ds = takeWhile isDigit u
      in if ds = [] then None
         else Some (if neg then - digitsVal ds else digitsVal ds))"

subsection \<open>parseCSVLine\<close>

text \<open>
  The \<^verbatim>\<open>for\<close> loop of \<^verbatim>\<open>parseCSVLine\<close> over the index \<open>i\<close>, with the variables
  \<^verbatim>\<open>startPos\<close>, \<^verbatim>\<open>inQuotes\<close> and \<^verbatim>\<open>result\<close>. It returns \<^verbatim>\<open>startPos\<close> and
  \<^verbatim>\<open>result\<close> as they are when the loop ends.
\<close>

function csvLoop :: "string \<Rightarrow> nat \<Rightarrow> nat \<Rightarrow> bool \<Rightarrow> string list \<Rightarrow> nat \<times> string list" where
  "csvLoop line i startPos inQuotes result =
     (if i < length line then
        (if line ! i = dquote then csvLoop line (i + 1) startPos (\<not> inQuotes) result
         else if line ! i = comma \<and> \<not> inQuotes then
           csvLoop line (i + 1) (i + 1) inQuotes
             (result @ [trim (stripQuotes (substring line startPos i))])
         else csvLoop line (i + 1) startPos inQuotes result)
      else (startPos, result))"
  by pat_completeness auto
termination
  by (relation "measure (\<lambda>(line, i, startPos, inQuotes, result). length line - i)") auto

declare csvLoop.simps [simp del]

definition parseCSVLine :: "string \<Rightarrow> string list" where
  "parseCSVLine line =
     (if line = [] \<or> trim line = [] then []
      else (case csvLoop line 0 0 False [] of
              (startPos, result) \<Rightarrow>
                result @ [trim (stripQuotes (drop startPos line))]))"

subsection \<open>Rows to events\<close>

record Event =
  date :: string
  time :: string
  hour :: "int option"
  amount :: int

text \<open>
  The body of the row loop of \<^verbatim>\<open>analyzeBottleFeeds\<close> for one line: \<open>Some\<close> of the
  event that the line adds to \<^verbatim>\<open>bottleFeeds\<close>, \<open>None\<close> when the line adds nothing.
  \<^item> \<^verbatim>\<open>amount\<close> starts at 0 and becomes \<^verbatim>\<open>parseInt(match[1], 10)\<close> when the
    \<^verbatim>\<open>End Condition\<close> field has a digit. A \<^verbatim>\<open>NaN\<close> there would be as falsy as 0 in
    the test \<^verbatim>\<open>dateTime && amount\<close>, so both are 0 here.
  \<^item> \<^verbatim>\<open>dateParts[1] || "00:00"\<close> takes the default when \<^verbatim>\<open>dateParts[1]\<close> is missing
    and when it is the empty string.
  \<^item> Nothing in the \<^verbatim>\<open>try\<close> block throws on strings, so its \<^verbatim>\<open>catch\<close> has no branch.
\<close>

definition extractFeed :: "nat \<Rightarrow> nat \<Rightarrow> nat \<Rightarrow> nat \<Rightarrow> string \<Rightarrow> Event option" where
  "extractFeed typeIndex startIndex startLocationIndex endConditionIndex line =
     (if trim line = [] then None
      else
        (let values = parseCSVLine line in
         if length values \<le> max (max typeIndex startIndex) (max startLocationIndex endConditionIndex)
         then None
         else if values ! startLocationIndex \<noteq> [] \<and>
                 str_includes (values ! startLocationIndex) ''Bottle'' then
           (let dateTime = values ! startIndex;
                amt = (if values ! endConditionIndex \<noteq> [] then
                         (case matchDigits (values ! endConditionIndex) of
                            None \<Rightarrow> 0
                          | Some run \<Rightarrow> (case parseInt10 run of None \<Rightarrow> 0 | Some n \<Rightarrow> n))
                       else 0)
            in if dateTime \<noteq> [] \<and> amt \<noteq> 0 then
                 (let dateParts = splitOn space dateTime;
                      d = dateParts ! 0;
                      t = (if 1 < length dateParts \<and> dateParts ! 1 \<noteq> []
                           then dateParts ! 1 else ''00:00'');
                      h = parseInt10 (splitOn colon t ! 0)
                  in Some \<lparr>date = d, time = t, hour = h, amount = amt\<rparr>)
               else None)
         else None))"

text \<open>The row loop over the lines after the header, in order.\<close>

fun collectFeeds :: "nat \<Rightarrow> nat \<Rightarrow> nat \<Rightarrow> nat \<Rightarrow> string list \<Rightarrow> Event list" where
  "collectFeeds ti si sli eci [] = []"
| "collectFeeds ti si sli eci (line # rest) =
     (case extractFeed ti si sli eci line of
        None \<Rightarrow> collectFeeds ti si sli eci rest
      | Some feed \<Rightarrow> feed # collectFeeds ti si sli eci rest)"

text \<open>
  \<^verbatim>\<open>headers.findIndex(p)\<close>: the first index whose element satisfies \<open>p\<close>; \<open>None\<close> is
  the \<^verbatim>\<open>-1\<close> of JavaScript.
\<close>

fun findIndex :: "('a \<Rightarrow> bool) \<Rightarrow> 'a list \<Rightarrow> nat option" where
  "findIndex p [] = None"
| "findIndex p (x # xs) = (if p x then Some 0 else map_option Suc (findIndex p xs))"

text \<open>
  The header row is split at every comma (\<^verbatim>\<open>lines[0].split(",")\<close>), not by
  \<^verbatim>\<open>parseCSVLine\<close>, and each piece loses its outer quotes and surrounding white space.
\<close>

definition parseHeaders :: "string \<Rightarrow> string list" where
  "parseHeaders line = map (\<lambda>header. trim (stripQuotes header)) (splitOn comma line)"

subsection \<open>Sorting\<close>

text \<open>
  \<^verbatim>\<open>Array.prototype.sort(cmp)\<close> is stable, puts \<open>a\<close> before \<open>b\<close> when \<open>cmp a b < 0\<close> and
  leaves the order of the two when \<open>cmp a b = 0\<close>. The model is the stable insertion sort.
  For a comparator that is not consistent (dates that do not parse compare equal to every
  date) ECMAScript leaves the order to the engine; the model fixes one order there too.
\<close>

fun insertBy :: "('a \<Rightarrow> 'a \<Rightarrow> int) \<Rightarrow> 'a \<Rightarrow> 'a list \<Rightarrow> 'a list" where
  "insertBy cmp x [] = [x]"
| "insertBy cmp x (y # ys) = (if cmp x y \<le> 0 then x # y # ys else y # insertBy cmp x ys)"

fun array_sort :: "('a \<Rightarrow> 'a \<Rightarrow> int) \<Rightarrow> 'a list \<Rightarrow> 'a list" where
  "array_sort cmp [] = []"
| "array_sort cmp (x # xs) = insertBy cmp x (array_sort cmp xs)"

text \<open>
  \<^verbatim>\<open>new Date(a) - new Date(b)\<close> as a comparator: the difference of the two time values,
  and 0 when a date is invalid, since \<^verbatim>\<open>sort\<close> takes a \<^verbatim>\<open>NaN\<close> from its comparator as 0.
\<close>

definition compareDates :: "(string \<Rightarrow> int option) \<Rightarrow> string \<Rightarrow> string \<Rightarrow> int" where
  "compareDates dp a b =
     (case dp a of None \<Rightarrow> 0 | Some x \<Rightarrow> (case dp b of None \<Rightarrow> 0 | Some y \<Rightarrow> x - y))"

definition compareFeeds :: "(string \<Rightarrow> int option) \<Rightarrow> Event \<Rightarrow> Event \<Rightarrow> int" where
  "compareFeeds dp a b =
     compareDates dp (Event.date a @ '' '' @ time a) (Event.date b @ '' '' @ time b)"

subsection \<open>Numbers\<close>

text \<open>\<^verbatim>\<open>Math.round\<close>: the nearest integer, a half rounded up.\<close>

definition math_round :: "rat \<Rightarrow> int" where
  "math_round x = \<lfloor>x + 1 / 2\<rfloor>"

text \<open>
  A number that may be non-finite. \<open>js_div\<close> is the division of two finite numbers as
  JavaScript does it: a zero divisor gives an infinity of the sign of the dividend, and
  \<^verbatim>\<open>NaN\<close> for \<^verbatim>\<open>0 / 0\<close>. \<open>js_map f\<close> applies to a finite number an operation that leaves the
  non-finite ones as they are, such as \<^verbatim>\<open>Math.round\<close> and the product or quotient with a
  positive constant.
\<close>

datatype jsnum = Finite rat | PosInfinity | NegInfinity | NaN

definition js_div :: "rat \<Rightarrow> rat \<Rightarrow> jsnum" where
  "js_div a b =
     (if b \<noteq> 0 then Finite (a / b)
      else if 0 < a then PosInfinity else if a < 0 then NegInfinity else NaN)"

fun js_map :: "(rat \<Rightarrow> rat) \<Rightarrow> jsnum \<Rightarrow> jsnum" where
  "js_map f (Finite x) = Finite (f x)"
| "js_map f PosInfinity = PosInfinity"
| "js_map f NegInfinity = NegInfinity"
| "js_map f NaN = NaN"

text \<open>\<^verbatim>\<open>Math.round((recentAvg - olderAvg) / olderAvg * 1000) / 10\<close>\<close>

definition percentChangeOf :: "rat \<Rightarrow> rat \<Rightarrow> jsnum" where
  "percentChangeOf recentAvg olderAvg =
     js_map (\<lambda>x. x / 10)
       (js_map (\<lambda>x. of_int (math_round x))
          (js_map (\<lambda>x. x * 1000) (js_div (recentAvg - olderAvg) olderAvg)))"

text \<open>
  \<^verbatim>\<open>xs.slice(begin, end)\<close>: a negative index counts from the end, and both are clamped to
  the array.
\<close>

definition slice :: "'a list \<Rightarrow> int \<Rightarrow> int \<Rightarrow> 'a list" where
  "slice xs begin end =
     (let n = int (length xs);
          k = (if begin < 0 then max (n + begin) 0 else min begin n);
          final = (if end < 0 then max (n + end) 0 else min end n)
      in take (nat (final - k)) (drop (nat k) xs))"

text \<open>\<^verbatim>\<open>xs.slice(begin)\<close>\<close>

definition sliceFrom :: "'a list \<Rightarrow> int \<Rightarrow> 'a list" where
  "sliceFrom xs begin = slice xs begin (int (length xs))"

subsection \<open>Errors\<close>

text \<open>
  What \<^verbatim>\<open>analyzeBottleFeeds\<close> throws, by the place that throws it. The outer \<^verbatim>\<open>catch\<close>
  rethrows every error as \<^verbatim>\<open>new Error("Failed to analyze CSV: " + error.message)\<close>, which
  keeps the message and so the place.
  \<^item> \<open>EmptyOrInvalid\<close>: \<^verbatim>\<open>"CSV data appears to be empty or invalid"\<close>;
  \<^item> \<open>ColumnsNotFound\<close>: \<^verbatim>\<open>"Required columns not found in CSV data"\<close>;
  \<^item> \<open>NoValidFeeds\<close>: \<^verbatim>\<open>"No valid bottle feeds found in the CSV data"\<close>;
  \<^item> \<open>PushOnUndefined\<close>: the \<^verbatim>\<open>TypeError\<close> of \<^verbatim>\<open>feedsByDate[feed.date].feeds.push(feed)\<close>
    when \<^verbatim>\<open>feeds\<close> is \<^verbatim>\<open>undefined\<close> (see \<open>addFeed\<close>).
\<close>

datatype error = EmptyOrInvalid | ColumnsNotFound | NoValidFeeds | PushOnUndefined

subsection \<open>Grouping by date\<close>

record DayGroup =
  feeds :: "Event list"
  totalAmount :: int
  count :: nat

text \<open>
  \<^verbatim>\<open>feedsByDate\<close> is a plain object: its own properties are kept here in the order of
  their creation. Reading a key that is not its own reaches \<^verbatim>\<open>Object.prototype\<close>, whose
  properties are these.
\<close>

type_synonym feedsByDate = "(string \<times> DayGroup) list"

definition objectPrototypeKeys :: "string list" where
  "objectPrototypeKeys =
     [''constructor'', ''__defineGetter__'', ''__defineSetter__'', ''hasOwnProperty'',
      ''__lookupGetter__'', ''__lookupSetter__'', ''isPrototypeOf'', ''propertyIsEnumerable'',
      ''toString'', ''valueOf'', ''__proto__'', ''toLocaleString'']"

text \<open>The three updates of the group of a feed's date.\<close>

definition pushFeed :: "DayGroup \<Rightarrow> Event \<Rightarrow> DayGroup" where
  "pushFeed g feed =
     g\<lparr>feeds := feeds g @ [feed],
       totalAmount := DayGroup.totalAmount g + amount feed,
       count := DayGroup.count g + 1\<rparr>"

text \<open>
  One round of the grouping loop. When the date is not a key of \<^verbatim>\<open>feedsByDate\<close> itself:
  if it names a property of \<^verbatim>\<open>Object.prototype\<close>, the test \<^verbatim>\<open>!feedsByDate[feed.date]\<close>
  sees that (truthy) property, no group is created, and \<^verbatim>\<open>.feeds.push\<close> throws; otherwise
  the empty group is created at the end of the object and the feed is added to it.
\<close>

definition addFeed :: "feedsByDate \<Rightarrow> Event \<Rightarrow> error + feedsByDate" where
  "addFeed feedsByDate feed =
     (case map_of feedsByDate (Event.date feed) of
        None \<Rightarrow>
          if Event.date feed \<in> set objectPrototypeKeys then Inl PushOnUndefined
          else Inr (feedsByDate @
                 [(Event.date feed, pushFeed \<lparr>feeds = [], totalAmount = 0, count = 0\<rparr> feed)])
      | Some g \<Rightarrow> Inr (AList.update (Event.date feed) (pushFeed g feed) feedsByDate))"

fun groupByDate :: "feedsByDate \<Rightarrow> Event list \<Rightarrow> error + feedsByDate" where
  "groupByDate feedsByDate [] = Inr feedsByDate"
| "groupByDate feedsByDate (feed # rest) =
     (case addFeed feedsByDate feed of
        Inl e \<Rightarrow> Inl e
      | Inr feedsByDate' \<Rightarrow> groupByDate feedsByDate' rest)"

text \<open>
  \<^verbatim>\<open>Object.keys\<close>: first the keys that are array indices (the canonical decimal numerals
  below \<open>2\<^sup>3\<^sup>2 - 1\<close>) in ascending numeric order, then the other keys in the order of their
  creation.
\<close>

definition isArrayIndex :: "string \<Rightarrow> bool" where
  "isArrayIndex s =
     (s \<noteq> [] \<and> list_all isDigit s \<and> (s = ''0'' \<or> hd s \<noteq> CHR ''0'') \<and>
      digitsVal s < 4294967295)"

definition objectKeys :: "(string \<times> 'v) list \<Rightarrow> string list" where
  "objectKeys obj =
     sort_key digitsVal (filter isArrayIndex (map fst obj)) @
     filter (\<lambda>k. \<not> isArrayIndex k) (map fst obj)"

subsection \<open>Daily statistics\<close>

record DailyStat =
  date :: string
  feedCount :: nat
  totalAmount :: int
  averageAmount :: rat

definition dayStat :: "string \<Rightarrow> DayGroup \<Rightarrow> DailyStat" where
  "dayStat d stats =
     \<lparr>date = d,
      feedCount = DayGroup.count stats,
      totalAmount = DayGroup.totalAmount stats,
      averageAmount =
        of_int (math_round (of_int (DayGroup.totalAmount stats) / of_nat (DayGroup.count stats) * 10))
          / 10\<rparr>"

text \<open>
  The loop over \<^verbatim>\<open>dateKeys\<close>. Every key comes from \<^verbatim>\<open>Object.keys(feedsByDate)\<close>, so the
  lookup finds its group and the \<open>None\<close> case is not reached (\<open>buildStats_objectKeys\<close>).
\<close>

fun buildStats :: "feedsByDate \<Rightarrow> string list \<Rightarrow> DailyStat list" where
  "buildStats feedsByDate [] = []"
| "buildStats feedsByDate (d # dateKeys) =
     (case map_of feedsByDate d of
        None \<Rightarrow> buildStats feedsByDate dateKeys
      | Some stats \<Rightarrow> dayStat d stats # buildStats feedsByDate dateKeys)"

definition compareStats :: "(string \<Rightarrow> int option) \<Rightarrow> DailyStat \<Rightarrow> DailyStat \<Rightarrow> int" where
  "compareStats dp a b = compareDates dp (DailyStat.date a) (DailyStat.date b)"

definition allStatsOf :: "(string \<Rightarrow> int option) \<Rightarrow> feedsByDate \<Rightarrow> DailyStat list" where
  "allStatsOf dp feedsByDate =
     array_sort (compareStats dp) (buildStats feedsByDate (objectKeys feedsByDate))"

subsection \<open>The recent trend\<close>

record TrendPoint =
  recentAverage :: rat
  olderAverage :: rat
  percentChange :: jsnum

text \<open>
  The summing loop over a window of days and the division by the window's length. Both
  callers pass a window that is not empty.
\<close>

definition windowAvg :: "DailyStat list \<Rightarrow> rat" where
  "windowAvg days = sum_list (map averageAmount days) / of_nat (length days)"

definition recentTrendOf :: "DailyStat list \<Rightarrow> TrendPoint option" where
  "recentTrendOf allStats =
     (if 14 \<le> length allStats then
        (let recentDays = sliceFrom allStats (- 7);
             olderDays = slice allStats (- 14) (- 7);
             recentAvg = windowAvg recentDays;
             olderAvg = windowAvg olderDays
         in Some \<lparr>recentAverage = of_int (math_round (recentAvg * 10)) / 10,
                  olderAverage = of_int (math_round (olderAvg * 10)) / 10,
                  percentChange = percentChangeOf recentAvg olderAvg\<rparr>)
      else None)"

subsection \<open>Time of day\<close>

record SlotAcc =
  count :: nat
  totalAmount :: int

type_synonym timeSlots = "(string \<times> SlotAcc) list"

definition initialTimeSlots :: timeSlots where
  "initialTimeSlots =
     [(''12am-6am'', \<lparr>count = 0, totalAmount = 0\<rparr>),
      (''6am-12pm'', \<lparr>count = 0, totalAmount = 0\<rparr>),
      (''12pm-6pm'', \<lparr>count = 0, totalAmount = 0\<rparr>),
      (''6pm-12am'', \<lparr>count = 0, totalAmount = 0\<rparr>)]"

text \<open>
  \<^verbatim>\<open>hour >= lo && hour < hi\<close>: both comparisons are false for \<^verbatim>\<open>NaN\<close>.
\<close>

fun hourIn :: "int option \<Rightarrow> int \<Rightarrow> int \<Rightarrow> bool" where
  "hourIn None lo hi = False"
| "hourIn (Some h) lo hi = (lo \<le> h \<and> h < hi)"

text \<open>The slot that the \<^verbatim>\<open>if\<close> chain picks for a feed; the last one is its \<^verbatim>\<open>else\<close>.\<close>

definition slotOf :: "Event \<Rightarrow> string" where
  "slotOf feedItem =
     (if hourIn (hour feedItem) 0 6 then ''12am-6am''
      else if hourIn (hour feedItem) 6 12 then ''6am-12pm''
      else if hourIn (hour feedItem) 12 18 then ''12pm-6pm''
      else ''6pm-12am'')"

definition bumpSlot :: "string \<Rightarrow> int \<Rightarrow> timeSlots \<Rightarrow> timeSlots" where
  "bumpSlot slot amt slots =
     map (\<lambda>(k, acc).
            if k = slot
            then (k, acc\<lparr>count := SlotAcc.count acc + 1,
                         totalAmount := SlotAcc.totalAmount acc + amt\<rparr>)
            else (k, acc)) slots"

fun fillSlots :: "timeSlots \<Rightarrow> Event list \<Rightarrow> timeSlots" where
  "fillSlots slots [] = slots"
| "fillSlots slots (feedItem # rest) =
     fillSlots (bumpSlot (slotOf feedItem) (amount feedItem) slots) rest"

record TimeSlotStat =
  hour :: string
  count :: nat
  totalAmount :: int
  percentage :: rat
  averageAmount :: rat

text \<open>
  One entry of \<^verbatim>\<open>timeStats\<close>; \<open>n\<close> is \<^verbatim>\<open>bottleFeeds.length\<close>, which is not 0 where the
  code divides by it.
\<close>

definition slotStat :: "nat \<Rightarrow> string \<times> SlotAcc \<Rightarrow> TimeSlotStat" where
  "slotStat n entry =
     (case entry of (slot, slotStats) \<Rightarrow>
        \<lparr>hour = slot,
         count = SlotAcc.count slotStats,
         totalAmount = SlotAcc.totalAmount slotStats,
         percentage = of_int (math_round (of_nat (SlotAcc.count slotStats) / of_nat n * 1000)) / 10,
         averageAmount =
           (if 0 < SlotAcc.count slotStats
            then of_int (math_round (of_int (SlotAcc.totalAmount slotStats)
                                       / of_nat (SlotAcc.count slotStats) * 10)) / 10
            else 0)\<rparr>)"

text \<open>
  No slot label is an array index, so \<^verbatim>\<open>Object.keys(timeSlots)\<close> is the labels in the order
  of the object literal.
\<close>

definition timeStatsOf :: "Event list \<Rightarrow> TimeSlotStat list" where
  "timeStatsOf bottleFeeds =
     map (slotStat (length bottleFeeds)) (fillSlots initialTimeSlots bottleFeeds)"

subsection \<open>analyzeBottleFeeds\<close>

text \<open>\<^verbatim>\<open>dateRange\<close> is the pair of its \<^verbatim>\<open>start\<close> and its \<^verbatim>\<open>end\<close>.\<close>

record OverallStats =
  totalBottleFeeds :: nat
  dateRange :: "string \<times> string"
  averageDailyFeeds :: rat
  averageFeedSize :: rat

record AnalysisResult =
  overallStats :: OverallStats
  recentTrend :: "TrendPoint option"
  dailyStats :: "DailyStat list"
  allStats :: "DailyStat list"
  timeStats :: "TimeSlotStat list"
  rawFeeds :: "Event list"

definition overallStatsOf :: "Event list \<Rightarrow> feedsByDate \<Rightarrow> OverallStats" where
  "overallStatsOf bottleFeeds feedsByDate =
     (let total = sum_list (map amount bottleFeeds) in
      \<lparr>totalBottleFeeds = length bottleFeeds,
       dateRange =
         (if 0 < length bottleFeeds then Event.date (bottleFeeds ! 0) else ''N/A'',
          if 0 < length bottleFeeds then Event.date (bottleFeeds ! (length bottleFeeds - 1))
          else ''N/A''),
       averageDailyFeeds =
         of_int (math_round (of_nat (length bottleFeeds)
                               / of_nat (length (objectKeys feedsByDate)) * 10)) / 10,
       averageFeedSize =
         of_int (math_round (of_int total / of_nat (length bottleFeeds) * 10)) / 10\<rparr>)"

text \<open>The part of \<^verbatim>\<open>analyzeBottleFeeds\<close> after the grouping loop, which throws nothing.\<close>

definition analysisResultOf :: "(string \<Rightarrow> int option) \<Rightarrow> Event list \<Rightarrow> feedsByDate \<Rightarrow> AnalysisResult" where
  "analysisResultOf dp bottleFeeds feedsByDate =
     (let stats = allStatsOf dp feedsByDate in
      \<lparr>overallStats = overallStatsOf bottleFeeds feedsByDate,
       recentTrend = recentTrendOf stats,
       dailyStats = sliceFrom stats (- 7),
       allStats = stats,
       timeStats = timeStatsOf bottleFeeds,
       rawFeeds = bottleFeeds\<rparr>)"

text \<open>
  The four \<^verbatim>\<open>findIndex\<close> calls and the test of their results against \<^verbatim>\<open>-1\<close> are the
  nested \<open>case\<close>: the columns are not found as soon as one index is \<open>None\<close>.
\<close>

definition analyzeBottleFeeds :: "(string \<Rightarrow> int option) \<Rightarrow> string \<Rightarrow> error + AnalysisResult" where
  "analyzeBottleFeeds dp csvText =
     (let lines = splitOn newline csvText in
      if length lines < 2 then Inl EmptyOrInvalid
      else
        (let headers = parseHeaders (lines ! 0) in
         case findIndex (\<lambda>h. h = ''Type'') headers of
           None \<Rightarrow> Inl ColumnsNotFound
         | Some typeIndex \<Rightarrow>
         (case findIndex (\<lambda>h. h = ''Start'') headers of
           None \<Rightarrow> Inl ColumnsNotFound
         | Some startIndex \<Rightarrow>
         (case findIndex (\<lambda>h. h = ''Start Location'') headers of
           None \<Rightarrow> Inl ColumnsNotFound
         | Some startLocationIndex \<Rightarrow>
         (case findIndex (\<lambda>h. h = ''End Condition'') headers of
           None \<Rightarrow> Inl ColumnsNotFound
         | Some endConditionIndex \<Rightarrow>
           (let collected =
                  collectFeeds typeIndex startIndex startLocationIndex endConditionIndex
                    (drop 1 lines)
            in if length collected = 0 then Inl NoValidFeeds
               else
                 (let bottleFeeds = array_sort (compareFeeds dp) collected in
                  case groupByDate [] bottleFeeds of
                    Inl e \<Rightarrow> Inl e
                  | Inr feedsByDate \<Rightarrow> Inr (analysisResultOf dp bottleFeeds feedsByDate))))))))"

subsection \<open>calculateDailyTrends\<close>

text \<open>
  The field \<^verbatim>\<open>value\<close> of an entry is \<open>trendValue\<close> here, \<open>value\<close> being a word of
  Isabelle's own.
\<close>

record TrendHistoryEntry =
  date :: string
  trendValue :: jsnum
  recentAvg :: rat
  olderAvg :: rat

text \<open>
  The \<^verbatim>\<open>for\<close> loop of \<^verbatim>\<open>calculateDailyTrends\<close> from the index \<open>i\<close> on, with
  \<^verbatim>\<open>trendHistory\<close> as it is so far.
\<close>

function trendLoop :: "DailyStat list \<Rightarrow> nat \<Rightarrow> TrendHistoryEntry list \<Rightarrow> TrendHistoryEntry list" where
  "trendLoop sortedStats i trendHistory =
     (if i < length sortedStats then
        (let recentDays = slice sortedStats (int i - 6) (int i + 1);
             olderDays = slice sortedStats (max 0 (int i - 13)) (int i - 6)
         in if 0 < length recentDays \<and> 0 < length olderDays then
              (let recentAvg = windowAvg recentDays;
                   olderAvg = windowAvg olderDays
               in trendLoop sortedStats (i + 1)
                    (trendHistory @
                     [\<lparr>date = DailyStat.date (sortedStats ! i),
                       trendValue = percentChangeOf recentAvg olderAvg,
                       recentAvg = of_int (math_round (recentAvg * 10)) / 10,
                       olderAvg = of_int (math_round (olderAvg * 10)) / 10\<rparr>]))
            else trendLoop sortedStats (i + 1) trendHistory)
      else trendHistory)"
  by pat_completeness auto
termination
  by (relation "measure (\<lambda>(sortedStats, i, trendHistory). length sortedStats - i)") auto

declare trendLoop.simps [simp del]

text \<open>
  \<^verbatim>\<open>calculateDailyTrends\<close> as a function of the contents \<open>stats\<close> of the array
  \<^verbatim>\<open>allStats\<close> it is given. The store-passing version below says which arrays it writes;
  there \<open>stats\<close> is the address of that array. The test \<^verbatim>\<open>!allStats\<close> is for a caller
  that passes no array, which the type of \<open>stats\<close> excludes.
\<close>

definition calculateDailyTrends :: "(string \<Rightarrow> int option) \<Rightarrow> DailyStat list \<Rightarrow> TrendHistoryEntry list" where
  "calculateDailyTrends dp stats =
     (if length stats < 14 then []
      else (let sortedStats = array_sort (compareStats dp) stats
            in trendLoop sortedStats 13 []))"

subsection \<open>calculateDailyTrends on a store of arrays\<close>

text \<open>
  \<^verbatim>\<open>Array.prototype.sort\<close> sorts the array it is called on, and the caller of
  \<^verbatim>\<open>calculateDailyTrends\<close> keeps a reference to the array it passes. A store holds the
  arrays of daily statistics allocated so far; an address is the position of an array in
  the store. \<^verbatim>\<open>slice()\<close> allocates a copy at a new address, \<^verbatim>\<open>sort\<close> overwrites the array
  at the address it is given and returns that address. The windows that the loop slices
  out are read once and never written, so the loop runs on the contents of the sorted
  array.
\<close>

type_synonym addr = nat
type_synonym store = "DailyStat list list"

definition array_slice_st :: "store \<Rightarrow> addr \<Rightarrow> store \<times> addr" where
  "array_slice_st st a = (st @ [st ! a], length st)"

definition array_sort_st :: "(DailyStat \<Rightarrow> DailyStat \<Rightarrow> int) \<Rightarrow> store \<Rightarrow> addr \<Rightarrow> store \<times> addr" where
  "array_sort_st cmp st a = (st[a := array_sort cmp (st ! a)], a)"

definition calculateDailyTrends_st :: "(string \<Rightarrow> int option) \<Rightarrow> store \<Rightarrow> addr \<Rightarrow> store \<times> TrendHistoryEntry list" where
  "calculateDailyTrends_st dp st stats =
     (if length (st ! stats) < 14 then (st, [])
      else
        (case array_slice_st st stats of
           (st1, copy) \<Rightarrow>
             (case array_sort_st (compareStats dp) st1 copy of
                (st2, sortedStats) \<Rightarrow> (st2, trendLoop (st2 ! sortedStats) 13 []))))"

text \<open>
  The lines of \<^verbatim>\<open>handleDataRequest\<close> that call \<^verbatim>\<open>calculateDailyTrends\<close>:
  \<^verbatim>\<open>analysisResults.trendHistory = calculateDailyTrends(analysisResults.allStats)\<close>.
  Of the object \<^verbatim>\<open>analysisResults\<close> the model keeps the two fields of this assignment:
  \<^verbatim>\<open>allStats\<close>, which is a reference to an array of the store, and \<^verbatim>\<open>trendHistory\<close>,
  which is \<open>None\<close> as long as the object has no such field.
\<close>

record AnalysisObject =
  allStatsRef :: addr
  trendHistory :: "TrendHistoryEntry list option"

definition setTrendHistory :: "(string \<Rightarrow> int option) \<Rightarrow> store \<Rightarrow> AnalysisObject \<Rightarrow> store \<times> AnalysisObject" where
  "setTrendHistory dp st analysisResults =
     (case calculateDailyTrends_st dp st (allStatsRef analysisResults) of
        (st', history) \<Rightarrow> (st', analysisResults\<lparr>trendHistory := Some history\<rparr>))"

subsection \<open>A date parser for the worked examples\<close>

text \<open>
  The examples below need one concrete \<open>dp\<close>. \<open>digitsDate\<close> reads the digits of a string
  as one number, which orders dates and times written with leading zeros and the year
  first (\<^verbatim>\<open>2023-03-01 08:00\<close>) as the calendar does; a string without a digit is an
  invalid date.
\<close>

definition digitsDate :: "string \<Rightarrow> int option" where
  "digitsDate s = (if filter isDigit s = [] then None else Some (digitsVal (filter isDigit s)))"

section \<open>Notions of the specification\<close>

text \<open>
  The specification's \<open>round1(x) = round(x*10)/10\<close>, with the rounding of \<^verbatim>\<open>Math.round\<close>.
\<close>

definition spec_round1 :: "rat \<Rightarrow> rat" where
  "spec_round1 x = of_int (math_round (x * 10)) / 10"

text \<open>The first run of decimal digits of a string, empty when the string has no digit.\<close>

definition firstDigits :: "string \<Rightarrow> string" where
  "firstDigits s = takeWhile isDigit (dropWhile (\<lambda>c. \<not> isDigit c) s)"

text \<open>
  The commas of a line that are outside double quotes, \<open>q\<close> telling whether the line starts
  inside quotes. A quote that is never closed leaves the rest of the line inside quotes.
\<close>

fun unquotedCommas :: "bool \<Rightarrow> string \<Rightarrow> nat" where
  "unquotedCommas q [] = 0"
| "unquotedCommas q (c # cs) =
     (if c = dquote then unquotedCommas (\<not> q) cs
      else if c = comma \<and> \<not> q then Suc (unquotedCommas q cs)
      else unquotedCommas q cs)"

text \<open>
  A list is ascending for a comparator when the comparator does not put any element after
  its successor.
\<close>

fun ascending :: "('a \<Rightarrow> 'a \<Rightarrow> int) \<Rightarrow> 'a list \<Rightarrow> bool" where
  "ascending cmp [] = True"
| "ascending cmp [x] = True"
| "ascending cmp (x # y # ys) = (cmp x y \<le> 0 \<and> ascending cmp (y # ys))"

text \<open>
  The columns that \<^verbatim>\<open>analyzeBottleFeeds\<close> requires, the position of a column in the
  header row (the number of headers if there is no such column), and the events that the
  row loop extracts from a text with these positions.
\<close>

definition requiredColumns :: "string list" where
  "requiredColumns = [''Type'', ''Start'', ''Start Location'', ''End Condition'']"

definition columnOf :: "string \<Rightarrow> string list \<Rightarrow> nat" where
  "columnOf name headers =
     (case findIndex (\<lambda>h. h = name) headers of Some i \<Rightarrow> i | None \<Rightarrow> length headers)"

definition extractedFeeds :: "string \<Rightarrow> Event list" where
  "extractedFeeds csvText =
     (let lines = splitOn newline csvText;
          headers = parseHeaders (lines ! 0)
      in collectFeeds (columnOf ''Type'' headers) (columnOf ''Start'' headers)
           (columnOf ''Start Location'' headers) (columnOf ''End Condition'' headers)
           (drop 1 lines))"

text \<open>
  \<open>feedsByDate\<close> groups the events \<open>es\<close>: its keys are the dates of the events, each once,
  and the group of a date holds the events of that date in their order, their number and
  the sum of their amounts.
\<close>

definition grouped :: "feedsByDate \<Rightarrow> Event list \<Rightarrow> bool" where
  "grouped fbd es \<longleftrightarrow>
     distinct (map fst fbd) \<and>
     dom (map_of fbd) = Event.date ` set es \<and>
     (\<forall>k g. map_of fbd k = Some g \<longrightarrow>
        feeds g = filter (\<lambda>e. Event.date e = k) es \<and>
        DayGroup.totalAmount g = sum_list (map amount (feeds g)) \<and>
        DayGroup.count g = length (feeds g))"

text \<open>A slot accumulator after the feeds \<open>fs\<close> have been added to it.\<close>

definition addFeeds :: "SlotAcc \<Rightarrow> Event list \<Rightarrow> SlotAcc" where
  "addFeeds a fs =
     a\<lparr>SlotAcc.count := SlotAcc.count a + length fs,
       SlotAcc.totalAmount := SlotAcc.totalAmount a + sum_list (map amount fs)\<rparr>"

text \<open>
  The entry that the loop of \<^verbatim>\<open>calculateDailyTrends\<close> adds at an index \<open>i\<close> from 13 on,
  where both windows lie inside the array.
\<close>

definition trendEntryAt :: "DailyStat list \<Rightarrow> nat \<Rightarrow> TrendHistoryEntry" where
  "trendEntryAt s i =
     \<lparr>date = DailyStat.date (s ! i),
      trendValue = percentChangeOf (windowAvg (take 7 (drop (i - 6) s)))
                     (windowAvg (take 7 (drop (i - 13) s))),
      recentAvg = of_int (math_round (windowAvg (take 7 (drop (i - 6) s)) * 10)) / 10,
      olderAvg = of_int (math_round (windowAvg (take 7 (drop (i - 13) s)) * 10)) / 10\<rparr>"

section \<open>Data of the worked examples\<close>

text \<open>The header row of the examples, with the four required columns at the positions 0 to 3.\<close>

definition headerRow :: string where
  "headerRow = ''Type,Start,Start Location,End Condition''"

text \<open>
  A small input: two bottle feeds on the first day, a breast feed, a refused bottle and one
  bottle feed on the second day; and the result of its analysis.
\<close>

definition sampleCsv :: string where
  "sampleCsv =
     ''Type,Start,Start Location,End Condition'' @ [newline] @
     ''Feed,2023-03-01 08:00,Bottle,120ml'' @ [newline] @
     ''Feed,2023-03-01 12:30,Bottle,150ml'' @ [newline] @
     ''Feed,2023-03-01 14:00,Breast,'' @ [newline] @
     ''Feed,2023-03-02 19:45,Bottle,Refused'' @ [newline] @
     ''Feed,2023-03-02 21:10,Bottle,90ml''"

definition sampleResult :: AnalysisResult where
  "sampleResult =
     \<lparr>overallStats =
        \<lparr>totalBottleFeeds = 3, dateRange = (''2023-03-01'', ''2023-03-02''),
         averageDailyFeeds = 3 / 2, averageFeedSize = 120\<rparr>,
      recentTrend = None,
      dailyStats =
        [\<lparr>DailyStat.date = ''2023-03-01'', feedCount = 2, totalAmount = 270, averageAmount = 135\<rparr>,
         \<lparr>DailyStat.date = ''2023-03-02'', feedCount = 1, totalAmount = 90, averageAmount = 90\<rparr>],
      allStats =
        [\<lparr>DailyStat.date = ''2023-03-01'', feedCount = 2, totalAmount = 270, averageAmount = 135\<rparr>,
         \<lparr>DailyStat.date = ''2023-03-02'', feedCount = 1, totalAmount = 90, averageAmount = 90\<rparr>],
      timeStats =
        [\<lparr>TimeSlotStat.hour = ''12am-6am'', count = 0, totalAmount = 0,
          percentage = 0, averageAmount = 0\<rparr>,
         \<lparr>TimeSlotStat.hour = ''6am-12pm'', count = 1, totalAmount = 120,
          percentage = 333 / 10, averageAmount = 120\<rparr>,
         \<lparr>TimeSlotStat.hour = ''12pm-6pm'', count = 1, totalAmount = 150,
          percentage = 333 / 10, averageAmount = 150\<rparr>,
         \<lparr>TimeSlotStat.hour = ''6pm-12am'', count = 1, totalAmount = 90,
          percentage = 333 / 10, averageAmount = 90\<rparr>],
      rawFeeds =
        [\<lparr>Event.date = ''2023-03-01'', time = ''08:00'', hour = Some 8, amount = 120\<rparr>,
         \<lparr>Event.date = ''2023-03-01'', time = ''12:30'', hour = Some 12, amount = 150\<rparr>,
         \<lparr>Event.date = ''2023-03-02'', time = ''21:10'', hour = Some 21, amount = 90\<rparr>]\<rparr>"

text \<open>A row whose \<^verbatim>\<open>Start\<close> field has a date and no time.\<close>

definition noTimeRow :: string where
  "noTimeRow = ''Feed,2023-03-01,Big Bottle,approx 120 ml''"

text \<open>A row whose quote is never closed, and a well-formed row.\<close>

definition unbalancedRow :: string where
  "unbalancedRow = ''Feed,'' @ [dquote] @ ''2023-03-01 08:00,Bottle,120ml''"

definition goodRow :: string where
  "goodRow = ''Feed,2023-03-02 09:15,Bottle,150ml''"

text \<open>A header without the column \<^verbatim>\<open>Start Location\<close>.\<close>

definition missingColumnCsv :: string where
  "missingColumnCsv = ''Type,Start,End Condition'' @ [newline] @ ''Feed,2023-03-01 08:00,120ml''"

text \<open>A text whose only row is a breast feed.\<close>

definition breastOnlyCsv :: string where
  "breastOnlyCsv = headerRow @ [newline] @ ''Feed,2023-03-01 08:00,Breast,''"

text \<open>A text whose only row has the word \<^verbatim>\<open>constructor\<close> where the date should be.\<close>

definition constructorCsv :: string where
  "constructorCsv = headerRow @ [newline] @ ''Feed,constructor 08:00,Bottle,120ml''"

text \<open>A text whose only row has the hour 99.\<close>

definition hour99Csv :: string where
  "hour99Csv = headerRow @ [newline] @ ''Feed,2023-03-01 99:00,Bottle,120ml''"

text \<open>The result of the analysis of \<open>hour99Csv\<close>.\<close>

definition hour99Result :: AnalysisResult where
  "hour99Result =
     \<lparr>overallStats =
        \<lparr>totalBottleFeeds = 1, dateRange = (''2023-03-01'', ''2023-03-01''),
         averageDailyFeeds = 1, averageFeedSize = 120\<rparr>,
      recentTrend = None,
      dailyStats =
        [\<lparr>DailyStat.date = ''2023-03-01'', feedCount = 1, totalAmount = 120, averageAmount = 120\<rparr>],
      allStats =
        [\<lparr>DailyStat.date = ''2023-03-01'', feedCount = 1, totalAmount = 120, averageAmount = 120\<rparr>],
      timeStats =
        [\<lparr>TimeSlotStat.hour = ''12am-6am'', count = 0, totalAmount = 0,
          percentage = 0, averageAmount = 0\<rparr>,
         \<lparr>TimeSlotStat.hour = ''6am-12pm'', count = 0, totalAmount = 0,
          percentage = 0, averageAmount = 0\<rparr>,
         \<lparr>TimeSlotStat.hour = ''12pm-6pm'', count = 0, totalAmount = 0,
          percentage = 0, averageAmount = 0\<rparr>,
         \<lparr>TimeSlotStat.hour = ''6pm-12am'', count = 1, totalAmount = 120,
          percentage = 100, averageAmount = 120\<rparr>],
      rawFeeds =
        [\<lparr>Event.date = ''2023-03-01'', time = ''99:00'', hour = Some 99, amount = 120\<rparr>]\<rparr>"

text \<open>
  A header row whose first column name is quoted and contains a comma, and a data row in
  the same five columns.
\<close>

definition quotedHeaderRow :: string where
  "quotedHeaderRow =
     [dquote] @ ''Baby, name'' @ [dquote] @ '',Type,Start,Start Location,End Condition''"

definition quotedDataRow :: string where
  "quotedDataRow =
     [dquote] @ ''Doe, Josie'' @ [dquote] @ '',Feed,2023-03-01 08:00,Bottle,120ml''"

definition sampleDay :: "string \<times> int \<Rightarrow> DailyStat" where
  "sampleDay p =
     \<lparr>DailyStat.date = fst p, feedCount = 1, totalAmount = snd p,
      averageAmount = of_int (snd p)\<rparr>"

text \<open>Fourteen days in calendar order: a week at 100 ml, then a week at 110 ml.\<close>

definition fortnight :: "DailyStat list" where
  "fortnight = map sampleDay
     [(''2023-03-01'', 100), (''2023-03-02'', 100), (''2023-03-03'', 100), (''2023-03-04'', 100),
      (''2023-03-05'', 100), (''2023-03-06'', 100), (''2023-03-07'', 100), (''2023-03-08'', 110),
      (''2023-03-09'', 110), (''2023-03-10'', 110), (''2023-03-11'', 110), (''2023-03-12'', 110),
      (''2023-03-13'', 110), (''2023-03-14'', 110)]"

text \<open>Fourteen days with one bottle feed each: a week of 100 ml, then a week of 110 ml.\<close>

definition fortnightCsv :: string where
  "fortnightCsv =
     headerRow @
     concat (map (\<lambda>(d, a). newline # ''Feed,2023-03-'' @ d @ '',Bottle,'' @ a)
       [(''01'', ''100''), (''02'', ''100''), (''03'', ''100''), (''04'', ''100''),
        (''05'', ''100''), (''06'', ''100''), (''07'', ''100''), (''08'', ''110''),
        (''09'', ''110''), (''10'', ''110''), (''11'', ''110''), (''12'', ''110''),
        (''13'', ''110''), (''14'', ''110'')])"

section \<open>Lemmas\<close>

subsection \<open>Sorting\<close>

lemma mset_insertBy: "mset (insertBy cmp x ys) = add_mset x (mset ys)"
  by (induction ys) auto

lemma mset_array_sort: "mset (array_sort cmp xs) = mset xs"
  by (induction xs) (auto simp: mset_insertBy)

lemma length_array_sort: "length (array_sort cmp xs) = length xs"
  using mset_array_sort [of cmp xs] by (metis size_mset)

lemma set_array_sort: "set (array_sort cmp xs) = set xs"
  using mset_array_sort [of cmp xs] by (metis set_mset_mset)

lemma array_sort_ascending: "ascending cmp xs \<Longrightarrow> array_sort cmp xs = xs"
  by (induction cmp xs rule: ascending.induct) auto

lemma ascending_Cons:
  "ascending cmp (x # ys) = ((ys = [] \<or> cmp x (hd ys) \<le> 0) \<and> ascending cmp ys)"
  by (cases ys) auto

lemma hd_insertBy:
  "hd (insertBy cmp x ys) = (if ys = [] \<or> cmp x (hd ys) \<le> 0 then x else hd ys)"
  by (cases ys) auto

lemma insertBy_not_Nil: "insertBy cmp x ys \<noteq> []"
  by (cases ys) auto

text \<open>
  Sorting gives an ascending list when the comparator never puts each of two elements
  after the other.
\<close>

lemma ascending_insertBy:
  assumes anti: "\<And>a b. 0 < cmp a b \<Longrightarrow> cmp b a \<le> 0"
  shows "ascending cmp ys \<Longrightarrow> ascending cmp (insertBy cmp x ys)"
proof (induction ys)
  case Nil
  then show ?case by simp
next
  case (Cons y ys)
  show ?case
  proof (cases "cmp x y \<le> 0")
    case True
    with Cons.prems show ?thesis by simp
  next
    case False
    then have "cmp y x \<le> 0" using anti [of x y] by simp
    moreover have "ascending cmp ys" "ys = [] \<or> cmp y (hd ys) \<le> 0"
      using Cons.prems by (simp_all add: ascending_Cons)
    ultimately show ?thesis
      using False Cons.IH by (auto simp: ascending_Cons hd_insertBy insertBy_not_Nil)
  qed
qed

lemma ascending_array_sort:
  assumes "\<And>a b. 0 < cmp a b \<Longrightarrow> cmp b a \<le> 0"
  shows "ascending cmp (array_sort cmp xs)"
  by (induction xs) (simp_all add: ascending_insertBy assms)

lemma compareDates_anti: "0 < compareDates dp a b \<Longrightarrow> compareDates dp b a \<le> 0"
  by (auto simp: compareDates_def split: option.splits)

lemma ascending_sorted_stats: "ascending (compareStats dp) (array_sort (compareStats dp) xs)"
  by (rule ascending_array_sort) (simp add: compareStats_def compareDates_anti)

subsection \<open>The loop of calculateDailyTrends\<close>

lemma slice_recent:
  assumes "13 \<le> i" "i < length s"
  shows "slice s (int i - 6) (int i + 1) = take 7 (drop (i - 6) s)"
  using assms
  by (auto simp: slice_def Let_def nat_diff_distrib' min_def max_def
      intro!: arg_cong2[where f=take] arg_cong2[where f=drop])

lemma slice_older:
  assumes "13 \<le> i" "i < length s"
  shows "slice s (int i - 13) (int i - 6) = take 7 (drop (i - 13) s)"
  using assms
  by (auto simp: slice_def Let_def nat_diff_distrib' min_def max_def
      intro!: arg_cong2[where f=take] arg_cong2[where f=drop])

lemma trendLoop_eq:
  "13 \<le> i \<Longrightarrow> trendLoop s i acc = acc @ map (trendEntryAt s) [i..<length s]"
proof (induction "length s - i" arbitrary: i acc)
  case 0
  then show ?case by (simp add: trendLoop.simps)
next
  case (Suc n)
  then have lt: "i < length s" and n: "n = length s - (i + 1)" and ge: "13 \<le> i + 1"
    by simp_all
  have inside: "\<not> length s \<le> i - 6" "\<not> length s \<le> i - 13"
    using lt by arith+
  have step: "trendLoop s i acc = trendLoop s (i + 1) (acc @ [trendEntryAt s i])"
    using lt Suc.prems inside
    by (subst trendLoop.simps) (simp add: slice_recent slice_older Let_def trendEntryAt_def)
  show ?case
    unfolding step Suc.hyps(1) [OF n ge]
    using lt by (simp add: upt_conv_Cons)
qed

lemma calculateDailyTrends_eq:
  "calculateDailyTrends dp stats =
     (if length stats < 14 then []
      else map (trendEntryAt (array_sort (compareStats dp) stats)) [13..<length stats])"
  by (simp add: calculateDailyTrends_def trendLoop_eq length_array_sort)

lemma windowAvg_7:
  assumes "k + 7 \<le> length s"
  shows "windowAvg (take 7 (drop k s)) =
         sum_list (map DailyStat.averageAmount (take 7 (drop k s))) / 7"
proof -
  from assms have "length (take 7 (drop k s)) = 7" by simp
  then show ?thesis unfolding windowAvg_def by (simp only: of_nat_numeral)
qed

subsection \<open>The loop of parseCSVLine\<close>

lemma csvLoop_length:
  "i \<le> length line \<Longrightarrow>
   length (snd (csvLoop line i startPos q result)) = length result + unquotedCommas q (drop i line)"
proof (induction "length line - i" arbitrary: i startPos q result)
  case 0
  then show ?case by (simp add: csvLoop.simps)
next
  case (Suc n)
  then have lt: "i < length line" and n: "n = length line - Suc i" and le: "Suc i \<le> length line"
    by simp_all
  have d: "drop i line = line ! i # drop (Suc i) line"
    using lt by (simp add: Cons_nth_drop_Suc)
  show ?case
    using lt by (subst csvLoop.simps) (simp add: d Suc.hyps(1) [OF n le])
qed

lemma length_parseCSVLine:
  "length (parseCSVLine line) = (if trim line = [] then 0 else Suc (unquotedCommas False line))"
proof (cases "trim line = []")
  case True
  then show ?thesis by (simp add: parseCSVLine_def)
next
  case False
  then have ne: "line \<noteq> []" by (auto simp: trim_def)
  obtain sp res where c: "csvLoop line 0 0 False [] = (sp, res)"
    by (cases "csvLoop line 0 0 False []")
  have "length res = unquotedCommas False line"
    using csvLoop_length [of 0 line 0 False "[]"] c by simp
  with False ne c show ?thesis by (simp add: parseCSVLine_def)
qed

text \<open>After a quote that is never closed, no comma separates fields any more.\<close>

lemma unquotedCommas_inside: "dquote \<notin> set cs \<Longrightarrow> unquotedCommas True cs = 0"
  by (induction cs) auto

lemma collectFeeds_append:
  "collectFeeds ti si sli eci (xs @ ys) =
   collectFeeds ti si sli eci xs @ collectFeeds ti si sli eci ys"
  by (induction xs) (auto split: option.splits)

subsection \<open>What an accepted input is\<close>

lemma analyzeBottleFeeds_Inr:
  assumes "analyzeBottleFeeds dp csvText = Inr r"
  obtains ti si sli eci feedsByDate where
    "findIndex (\<lambda>h. h = ''Type'') (parseHeaders (splitOn newline csvText ! 0)) = Some ti"
    "findIndex (\<lambda>h. h = ''Start'') (parseHeaders (splitOn newline csvText ! 0)) = Some si"
    "findIndex (\<lambda>h. h = ''Start Location'') (parseHeaders (splitOn newline csvText ! 0)) = Some sli"
    "findIndex (\<lambda>h. h = ''End Condition'') (parseHeaders (splitOn newline csvText ! 0)) = Some eci"
    "2 \<le> length (splitOn newline csvText)"
    "collectFeeds ti si sli eci (drop 1 (splitOn newline csvText)) \<noteq> []"
    "groupByDate [] (array_sort (compareFeeds dp)
        (collectFeeds ti si sli eci (drop 1 (splitOn newline csvText)))) = Inr feedsByDate"
    "r = analysisResultOf dp (array_sort (compareFeeds dp)
        (collectFeeds ti si sli eci (drop 1 (splitOn newline csvText)))) feedsByDate"
  using assms unfolding analyzeBottleFeeds_def Let_def
  by (auto split: if_splits option.splits sum.splits)

lemma rawFeeds_analysisResultOf [simp]: "rawFeeds (analysisResultOf dp fs fbd) = fs"
  and timeStats_analysisResultOf [simp]: "timeStats (analysisResultOf dp fs fbd) = timeStatsOf fs"
  and allStats_analysisResultOf [simp]: "allStats (analysisResultOf dp fs fbd) = allStatsOf dp fbd"
  and recentTrend_analysisResultOf [simp]:
    "recentTrend (analysisResultOf dp fs fbd) = recentTrendOf (allStatsOf dp fbd)"
  by (simp_all add: analysisResultOf_def Let_def)

lemma sampleCsv_analysis: "analyzeBottleFeeds digitsDate sampleCsv = Inr sampleResult"
  by code_simp

subsection \<open>Time slots\<close>

lemma slotOf_cases:
  "slotOf e = ''12am-6am'' \<or> slotOf e = ''6am-12pm'' \<or> slotOf e = ''12pm-6pm'' \<or> slotOf e = ''6pm-12am''"
  by (simp add: slotOf_def)

lemma addFeeds_Nil [simp]: "addFeeds a [] = a"
  by (simp add: addFeeds_def)

lemma fillSlots_four:
  "fillSlots [(''12am-6am'', a1), (''6am-12pm'', a2), (''12pm-6pm'', a3), (''6pm-12am'', a4)] fs =
     [(''12am-6am'', addFeeds a1 (filter (\<lambda>e. slotOf e = ''12am-6am'') fs)),
      (''6am-12pm'', addFeeds a2 (filter (\<lambda>e. slotOf e = ''6am-12pm'') fs)),
      (''12pm-6pm'', addFeeds a3 (filter (\<lambda>e. slotOf e = ''12pm-6pm'') fs)),
      (''6pm-12am'', addFeeds a4 (filter (\<lambda>e. slotOf e = ''6pm-12am'') fs))]"
proof (induction fs arbitrary: a1 a2 a3 a4)
  case Nil
  show ?case by simp
next
  case (Cons f fs)
  from slotOf_cases [of f] show ?case
    by (elim disjE) (simp_all add: Cons.IH bumpSlot_def addFeeds_def)
qed

lemma slot_counts_total:
  "length (filter (\<lambda>e. slotOf e = ''12am-6am'') fs) + length (filter (\<lambda>e. slotOf e = ''6am-12pm'') fs) +
   length (filter (\<lambda>e. slotOf e = ''12pm-6pm'') fs) + length (filter (\<lambda>e. slotOf e = ''6pm-12am'') fs)
   = length fs"
proof (induction fs)
  case Nil
  show ?case by simp
next
  case (Cons f fs)
  from slotOf_cases [of f] Cons.IH show ?case
    by (elim disjE) simp_all
qed

lemma timeStatsOf_eq:
  "timeStatsOf fs =
     map (\<lambda>l. slotStat (length fs) (l, addFeeds \<lparr>SlotAcc.count = 0, totalAmount = 0\<rparr> (filter (\<lambda>e. slotOf e = l) fs)))
       [''12am-6am'', ''6am-12pm'', ''12pm-6pm'', ''6pm-12am'']"
  by (simp add: timeStatsOf_def initialTimeSlots_def fillSlots_four)

lemma percentage_round1:
  "of_int (math_round (c / n * 1000)) / 10 = spec_round1 (c / n * 100)"
proof -
  have "c / n * 100 * 10 = c / n * 1000" by simp
  then show ?thesis unfolding spec_round1_def by (simp only:)
qed

lemma slotStat_fields:
  "TimeSlotStat.hour (slotStat n (l, a)) = l"
  "TimeSlotStat.count (slotStat n (l, a)) = SlotAcc.count a"
  "percentage (slotStat n (l, a)) = spec_round1 (of_nat (SlotAcc.count a) / of_nat n * 100)"
  unfolding percentage_round1 [symmetric] by (simp_all add: slotStat_def)

lemma count_addFeeds: "SlotAcc.count (addFeeds a fs) = SlotAcc.count a + length fs"
  by (simp add: addFeeds_def)

lemma length_timeStatsOf: "length (timeStatsOf fs) = 4"
  by (simp add: timeStatsOf_eq)

subsection \<open>Fields and numbers\<close>

lemma trim_take: "\<exists>n. trim s = take n (dropWhile isWhiteSpace s)"
proof -
  let ?t = "dropWhile isWhiteSpace s"
  have "dropWhile isWhiteSpace (rev ?t) = drop (length (takeWhile isWhiteSpace (rev ?t))) (rev ?t)"
    by (rule dropWhile_eq_drop)
  then have "trim s = take (length ?t - length (takeWhile isWhiteSpace (rev ?t))) ?t"
    by (simp add: trim_def rev_drop)
  then show ?thesis ..
qed

lemma hd_trim: "trim s \<noteq> [] \<Longrightarrow> \<not> isWhiteSpace (hd (trim s))"
proof -
  assume ne: "trim s \<noteq> []"
  obtain n where n: "trim s = take n (dropWhile isWhiteSpace s)" using trim_take by blast
  with ne have "dropWhile isWhiteSpace s \<noteq> []" "0 < n" by auto
  then show ?thesis using n hd_dropWhile [of isWhiteSpace s] by (simp add: hd_take)
qed

lemma trim_Nil_imp: "trim line \<noteq> [] \<Longrightarrow> line \<noteq> []"
  by (auto simp: trim_def)

lemma splitOn_not_Nil [simp]: "splitOn sep s \<noteq> []"
  by (induction s) (auto split: list.splits)

lemma splitOn_first: "splitOn sep s ! 0 = takeWhile (\<lambda>c. c \<noteq> sep) s"
  by (induction s) (auto split: list.splits simp: nth_Cons')

lemma splitOn_no_sep: "sep \<notin> set s \<Longrightarrow> splitOn sep s = [s]"
  by (induction s) auto

lemma length_splitOn: "length (splitOn sep s) = Suc (count_list s sep)"
  by (induction s) (auto split: list.splits)

lemma str_includes_sublist: "str_includes s t \<longleftrightarrow> sublist t s"
  by (induction s) (auto simp: sublist_Cons_right)

lemma isDigit_digitVal: "isDigit c \<Longrightarrow> 0 \<le> digitVal c \<and> digitVal c \<le> 9"
  by (auto simp: isDigit_def digitVal_def)

lemma isDigit_not_space: "isDigit c \<Longrightarrow> \<not> isWhiteSpace c \<and> c \<noteq> CHR ''-'' \<and> c \<noteq> CHR ''+''"
  by (auto simp: isDigit_def isWhiteSpace_def)

lemma foldl_digits_nonneg:
  "0 \<le> n \<Longrightarrow> list_all isDigit ds \<Longrightarrow> 0 \<le> foldl (\<lambda>n c. 10 * n + digitVal c) n ds"
proof (induction ds arbitrary: n)
  case Nil
  then show ?case by simp
next
  case (Cons d ds)
  from Cons.prems have "0 \<le> 10 * n + digitVal d" using isDigit_digitVal [of d] by simp
  with Cons show ?case by simp
qed

lemma digitsVal_nonneg: "list_all isDigit ds \<Longrightarrow> 0 \<le> digitsVal ds"
  unfolding digitsVal_def by (rule foldl_digits_nonneg) simp_all

lemma parseInt10_digits:
  assumes "ds \<noteq> []" "list_all isDigit ds"
  shows "parseInt10 ds = Some (digitsVal ds)"
proof -
  from assms obtain d ds' where ds: "ds = d # ds'" and d: "isDigit d" by (cases ds) auto
  have t: "dropWhile isWhiteSpace ds = ds" using d isDigit_not_space [of d] by (simp add: ds)
  have w: "takeWhile isDigit ds = ds" using assms(2) by (simp add: list_all_iff)
  show ?thesis
    unfolding parseInt10_def Let_def t
    using isDigit_not_space [OF d] assms(1) w by (simp add: ds)
qed

lemma firstDigits_digits: "list_all isDigit (firstDigits s)"
  by (simp add: firstDigits_def list_all_iff) (meson set_takeWhileD)

lemma csvLoop_fields:
  assumes "\<And>u. P (trim u)"
  shows "i \<le> length line \<Longrightarrow> list_all P result \<Longrightarrow> list_all P (snd (csvLoop line i startPos q result))"
proof (induction "length line - i" arbitrary: i startPos q result)
  case 0
  then show ?case by (simp add: csvLoop.simps)
next
  case (Suc n)
  then have lt: "i < length line" and n: "n = length line - Suc i" and le: "Suc i \<le> length line"
    by simp_all
  show ?case
    using lt Suc.prems(2) assms by (subst csvLoop.simps) (simp add: Suc.hyps(1) [OF n le])
qed

lemma parseCSVLine_fields:
  assumes "\<And>u. P (trim u)"
  shows "list_all P (parseCSVLine line)"
proof (cases "line = [] \<or> trim line = []")
  case True
  then show ?thesis by (auto simp: parseCSVLine_def)
next
  case False
  obtain sp res where c: "csvLoop line 0 0 False [] = (sp, res)"
    by (cases "csvLoop line 0 0 False []")
  have "list_all P res"
    using csvLoop_fields [of P 0 line "[]" 0 False] assms c by simp
  with False c assms show ?thesis by (simp add: parseCSVLine_def)
qed

lemma parseCSVLine_field_trimmed:
  assumes "i < length (parseCSVLine line)" "parseCSVLine line ! i \<noteq> []"
  shows "\<not> isWhiteSpace (hd (parseCSVLine line ! i))"
proof -
  have "list_all (\<lambda>v. v \<noteq> [] \<longrightarrow> \<not> isWhiteSpace (hd v)) (parseCSVLine line)"
    by (rule parseCSVLine_fields) (simp add: hd_trim)
  with assms show ?thesis by (simp add: list_all_length)
qed

subsection \<open>The event of a row\<close>

lemma amount_firstDigits:
  "(if v \<noteq> [] then
      (case matchDigits v of
         None \<Rightarrow> 0
       | Some run \<Rightarrow> (case parseInt10 run of None \<Rightarrow> 0 | Some n \<Rightarrow> n))
    else 0) = digitsVal (firstDigits v)"
proof (cases "firstDigits v = []")
  case True
  then have "matchDigits v = None" by (simp add: matchDigits_def firstDigits_def)
  with True show ?thesis by (simp add: digitsVal_def)
next
  case False
  then have m: "matchDigits v = Some (firstDigits v)" and v: "v \<noteq> []"
    by (auto simp: matchDigits_def firstDigits_def)
  show ?thesis
    using v by (simp add: m parseInt10_digits [OF False firstDigits_digits])
qed

lemma sublist_Bottle_not_Nil: "sublist ''Bottle'' v \<Longrightarrow> v \<noteq> []"
  by auto

lemma extractFeed_eq:
  "extractFeed ti si sli eci line =
     (let values = parseCSVLine line in
      if max (max ti si) (max sli eci) < length values \<and>
         sublist ''Bottle'' (values ! sli) \<and> values ! si \<noteq> [] \<and>
         digitsVal (firstDigits (values ! eci)) \<noteq> 0
      then
        (let parts = splitOn space (values ! si);
             t = (if 1 < length parts \<and> parts ! 1 \<noteq> [] then parts ! 1 else ''00:00'')
         in Some \<lparr>Event.date = takeWhile (\<lambda>c. c \<noteq> space) (values ! si),
                  time = t,
                  hour = parseInt10 (takeWhile (\<lambda>c. c \<noteq> colon) t),
                  amount = digitsVal (firstDigits (values ! eci))\<rparr>)
      else None)"
proof (cases "trim line = []")
  case True
  then have "parseCSVLine line = []" by (simp add: parseCSVLine_def)
  with True show ?thesis by (simp add: extractFeed_def)
next
  case False
  show ?thesis
    unfolding extractFeed_def Let_def amount_firstDigits
    using False sublist_Bottle_not_Nil
    by (auto simp: str_includes_sublist splitOn_first not_le)
qed

lemma extractFeed_Some:
  assumes "extractFeed ti si sli eci line = Some e"
  shows "0 < amount e" and "Event.date e \<noteq> []" and "time e \<noteq> []"
    and "Event.hour e = parseInt10 (takeWhile (\<lambda>c. c \<noteq> colon) (time e))"
proof -
  let ?vs = "parseCSVLine line"
  from assms have len: "max (max ti si) (max sli eci) < length ?vs"
    and st: "?vs ! si \<noteq> []"
    and nz: "digitsVal (firstDigits (?vs ! eci)) \<noteq> 0"
    and am: "amount e = digitsVal (firstDigits (?vs ! eci))"
    and da: "Event.date e = takeWhile (\<lambda>c. c \<noteq> space) (?vs ! si)"
    and ti: "time e \<noteq> []"
    and ho: "Event.hour e = parseInt10 (takeWhile (\<lambda>c. c \<noteq> colon) (time e))"
    unfolding extractFeed_eq Let_def by (auto split: if_splits)
  show "0 < amount e"
    using nz am digitsVal_nonneg [OF firstDigits_digits, of "?vs ! eci"] by simp
  have si: "si < length ?vs" using len by simp
  have "hd (?vs ! si) \<noteq> space"
    using parseCSVLine_field_trimmed [OF si st] by (auto simp: isWhiteSpace_def)
  with st show "Event.date e \<noteq> []" unfolding da by (cases "?vs ! si") auto
  show "time e \<noteq> []" by (rule ti)
  show "Event.hour e = parseInt10 (takeWhile (\<lambda>c. c \<noteq> colon) (time e))" by (rule ho)
qed

lemma collectFeeds_set:
  "e \<in> set (collectFeeds ti si sli eci ls) \<Longrightarrow> \<exists>line \<in> set ls. extractFeed ti si sli eci line = Some e"
  by (induction ls) (auto split: option.splits)

subsection \<open>Grouping by date\<close>

lemma grouped_Nil: "grouped [] []"
  by (simp add: grouped_def)

lemma pushFeed_fields [simp]:
  "feeds (pushFeed g f) = feeds g @ [f]"
  "DayGroup.totalAmount (pushFeed g f) = DayGroup.totalAmount g + amount f"
  "DayGroup.count (pushFeed g f) = DayGroup.count g + 1"
  by (simp_all add: pushFeed_def)

lemma addFeed_grouped:
  assumes g: "grouped fbd es" and a: "addFeed fbd f = Inr fbd'"
  shows "grouped fbd' (es @ [f])"
proof (cases "map_of fbd (Event.date f)")
  case None
  with a have fbd': "fbd' = fbd @ [(Event.date f, pushFeed \<lparr>feeds = [], totalAmount = 0, count = 0\<rparr> f)]"
    by (auto simp: addFeed_def split: if_splits)
  from None g have new: "Event.date f \<notin> Event.date ` set es" "Event.date f \<notin> fst ` set fbd"
    unfolding grouped_def by (auto simp: dom_map_of_conv_image_fst [symmetric] domIff)
  have "\<forall>e \<in> set es. Event.date e \<noteq> Event.date f"
    using new(1) by (metis imageI)
  then have nofilter: "filter (\<lambda>e. Event.date e = Event.date f) es = []"
    by (simp add: filter_empty_conv)
  show ?thesis
    unfolding grouped_def fbd'
  proof (intro conjI)
    show "distinct (map fst (fbd @ [(Event.date f, pushFeed \<lparr>feeds = [], totalAmount = 0, count = 0\<rparr> f)]))"
      using g new by (simp add: grouped_def)
    show "dom (map_of (fbd @ [(Event.date f, pushFeed \<lparr>feeds = [], totalAmount = 0, count = 0\<rparr> f)])) =
          Event.date ` set (es @ [f])"
      using g by (auto simp: grouped_def)
  next
    show "\<forall>k h. map_of (fbd @ [(Event.date f, pushFeed \<lparr>feeds = [], totalAmount = 0, count = 0\<rparr> f)]) k = Some h \<longrightarrow>
          feeds h = filter (\<lambda>e. Event.date e = k) (es @ [f]) \<and>
          DayGroup.totalAmount h = sum_list (map amount (feeds h)) \<and>
          DayGroup.count h = length (feeds h)"
    proof (intro allI impI)
    fix k h
    assume m: "map_of (fbd @ [(Event.date f, pushFeed \<lparr>feeds = [], totalAmount = 0, count = 0\<rparr> f)]) k = Some h"
    show "feeds h = filter (\<lambda>e. Event.date e = k) (es @ [f]) \<and>
          DayGroup.totalAmount h = sum_list (map amount (feeds h)) \<and>
          DayGroup.count h = length (feeds h)"
    proof (cases "k = Event.date f")
      case True
      with m None have "h = pushFeed \<lparr>feeds = [], totalAmount = 0, count = 0\<rparr> f"
        by (simp add: map_add_def)
      with True nofilter show ?thesis by simp
    next
      case False
      with m have "map_of fbd k = Some h" by (simp add: map_add_def split: option.splits)
      with g False show ?thesis by (auto simp: grouped_def)
    qed
    qed
  qed
next
  case (Some g0)
  with a have fbd': "fbd' = AList.update (Event.date f) (pushFeed g0 f) fbd"
    by (simp add: addFeed_def)
  from g Some have g0: "feeds g0 = filter (\<lambda>e. Event.date e = Event.date f) es"
    "DayGroup.totalAmount g0 = sum_list (map amount (feeds g0))"
    "DayGroup.count g0 = length (feeds g0)"
    by (auto simp: grouped_def)
  show ?thesis
    unfolding grouped_def fbd'
  proof (intro conjI)
    show "distinct (map fst (AList.update (Event.date f) (pushFeed g0 f) fbd))"
      using g by (simp add: grouped_def distinct_update)
    show "dom (map_of (AList.update (Event.date f) (pushFeed g0 f) fbd)) = Event.date ` set (es @ [f])"
      using g Some by (auto simp: grouped_def update_conv')
  next
    show "\<forall>k h. map_of (AList.update (Event.date f) (pushFeed g0 f) fbd) k = Some h \<longrightarrow>
          feeds h = filter (\<lambda>e. Event.date e = k) (es @ [f]) \<and>
          DayGroup.totalAmount h = sum_list (map amount (feeds h)) \<and>
          DayGroup.count h = length (feeds h)"
    proof (intro allI impI)
    fix k h
    assume m: "map_of (AList.update (Event.date f) (pushFeed g0 f) fbd) k = Some h"
    show "feeds h = filter (\<lambda>e. Event.date e = k) (es @ [f]) \<and>
          DayGroup.totalAmount h = sum_list (map amount (feeds h)) \<and>
          DayGroup.count h = length (feeds h)"
    proof (cases "k = Event.date f")
      case True
      with m have "h = pushFeed g0 f" by (simp add: update_conv')
      with True g0 show ?thesis by simp
    next
      case False
      with m have "map_of fbd k = Some h" by (simp add: update_conv')
      with g False show ?thesis by (auto simp: grouped_def)
    qed
    qed
  qed
qed

lemma groupByDate_grouped:
  "grouped fbd es \<Longrightarrow> groupByDate fbd fs = Inr fbd' \<Longrightarrow> grouped fbd' (es @ fs)"
proof (induction fs arbitrary: fbd es)
  case Nil
  then show ?case by simp
next
  case (Cons f fs)
  from Cons.prems(2) obtain fbd1 where a: "addFeed fbd f = Inr fbd1" and r: "groupByDate fbd1 fs = Inr fbd'"
    by (auto split: sum.splits)
  from Cons.IH [OF addFeed_grouped [OF Cons.prems(1) a] r] show ?case by simp
qed

lemma groupByDate_Nil_grouped: "groupByDate [] fs = Inr fbd \<Longrightarrow> grouped fbd fs"
  using groupByDate_grouped [OF grouped_Nil, of fs fbd] by simp

lemma grouped_not_Nil: "grouped fbd es \<Longrightarrow> es \<noteq> [] \<Longrightarrow> fbd \<noteq> []"
  by (auto simp: grouped_def)

text \<open>When the grouping loop throws.\<close>

lemma addFeed_Inl:
  "addFeed fbd f = Inl e \<longleftrightarrow>
     e = PushOnUndefined \<and> Event.date f \<notin> dom (map_of fbd) \<and> Event.date f \<in> set objectPrototypeKeys"
  by (auto simp: addFeed_def split: option.splits)

lemma addFeed_keys:
  assumes "addFeed fbd f = Inr fbd'"
  shows "dom (map_of fbd') = insert (Event.date f) (dom (map_of fbd))"
proof (cases "map_of fbd (Event.date f)")
  case None
  with assms have "fbd' = fbd @ [(Event.date f, pushFeed \<lparr>feeds = [], totalAmount = 0, count = 0\<rparr> f)]"
    by (auto simp: addFeed_def split: if_splits)
  then show ?thesis by auto
next
  case (Some g0)
  with assms have "fbd' = AList.update (Event.date f) (pushFeed g0 f) fbd"
    by (simp add: addFeed_def)
  then show ?thesis by (simp add: update_conv')
qed

lemma groupByDate_Inl:
  "dom (map_of fbd) \<inter> set objectPrototypeKeys = {} \<Longrightarrow>
   (\<exists>e. groupByDate fbd fs = Inl e) \<longleftrightarrow> (\<exists>f \<in> set fs. Event.date f \<in> set objectPrototypeKeys)"
proof (induction fs arbitrary: fbd)
  case Nil
  then show ?case by simp
next
  case (Cons f fs)
  show ?case
  proof (cases "addFeed fbd f")
    case (Inl e)
    then have "groupByDate fbd (f # fs) = Inl e" by simp
    moreover from Inl have "Event.date f \<in> set objectPrototypeKeys" by (simp add: addFeed_Inl)
    ultimately show ?thesis by force
  next
    case (Inr fbd1)
    then have notproto: "Event.date f \<notin> set objectPrototypeKeys"
      using Cons.prems by (auto simp: addFeed_def split: option.splits if_splits)
    have "dom (map_of fbd1) \<inter> set objectPrototypeKeys = {}"
      using addFeed_keys [OF Inr] Cons.prems notproto by auto
    from Cons.IH [OF this] Inr notproto show ?thesis by simp
  qed
qed

lemma groupByDate_error: "groupByDate fbd fs = Inl e \<Longrightarrow> e = PushOnUndefined"
proof (induction fs arbitrary: fbd)
  case Nil
  then show ?case by simp
next
  case (Cons f fs)
  then show ?case by (cases "addFeed fbd f") (auto simp: addFeed_Inl)
qed

lemma groupByDate_Nil_Inl:
  "groupByDate [] fs = Inl e \<longleftrightarrow>
     e = PushOnUndefined \<and> (\<exists>f \<in> set fs. Event.date f \<in> set objectPrototypeKeys)"
  using groupByDate_Inl [of "[]" fs] groupByDate_error [of "[]" fs] by auto

subsection \<open>Daily statistics\<close>

lemma mset_objectKeys: "mset (objectKeys obj) = mset (map fst obj)"
  by (simp add: objectKeys_def)

lemma set_objectKeys: "set (objectKeys obj) = fst ` set obj"
  using mset_objectKeys [of obj] by (metis set_mset_mset set_map)

lemma length_objectKeys: "length (objectKeys obj) = length obj"
  using mset_objectKeys [of obj] by (metis size_mset length_map)

lemma buildStats_map:
  "set ks \<subseteq> dom (map_of fbd) \<Longrightarrow>
   buildStats fbd ks = map (\<lambda>k. dayStat k (the (map_of fbd k))) ks"
  by (induction ks) auto

lemma buildStats_objectKeys:
  "buildStats fbd (objectKeys fbd) = map (\<lambda>k. dayStat k (the (map_of fbd k))) (objectKeys fbd)"
  by (rule buildStats_map) (simp add: set_objectKeys dom_map_of_conv_image_fst)

lemma date_dayStat [simp]: "DailyStat.date (dayStat k g) = k"
  and feedCount_dayStat [simp]: "feedCount (dayStat k g) = DayGroup.count g"
  and totalAmount_dayStat [simp]: "DailyStat.totalAmount (dayStat k g) = DayGroup.totalAmount g"
  and averageAmount_dayStat:
    "DailyStat.averageAmount (dayStat k g) =
       spec_round1 (of_int (DayGroup.totalAmount g) / of_nat (DayGroup.count g))"
  by (simp_all add: dayStat_def spec_round1_def)

lemma mset_dates_allStatsOf:
  "mset (map DailyStat.date (allStatsOf dp fbd)) = mset (map fst fbd)"
proof -
  have "mset (map DailyStat.date (allStatsOf dp fbd)) =
        image_mset DailyStat.date (mset (buildStats fbd (objectKeys fbd)))"
    by (simp add: allStatsOf_def mset_array_sort)
  also have "\<dots> = mset (objectKeys fbd)"
    by (simp add: buildStats_objectKeys image_mset.compositionality comp_def)
  finally show ?thesis by (simp add: mset_objectKeys)
qed

lemma length_allStatsOf: "length (allStatsOf dp fbd) = length fbd"
  using mset_dates_allStatsOf [of dp fbd] by (metis size_mset length_map)

lemma allStatsOf_member:
  assumes "s \<in> set (allStatsOf dp fbd)"
  obtains k g where "map_of fbd k = Some g" "s = dayStat k g"
proof -
  from assms have "s \<in> set (buildStats fbd (objectKeys fbd))"
    by (simp add: allStatsOf_def set_array_sort)
  then obtain k where k: "k \<in> fst ` set fbd" and s: "s = dayStat k (the (map_of fbd k))"
    by (auto simp: buildStats_objectKeys set_objectKeys)
  from k obtain g where "map_of fbd k = Some g"
    by (metis dom_map_of_conv_image_fst domD)
  with s that show ?thesis by simp
qed

lemma sum_no_key: "x \<notin> set ks \<Longrightarrow> (\<Sum>k\<leftarrow>ks. if x = k then a else (0::int)) = 0"
  by (induction ks) auto

lemma sum_single_key:
  "distinct ks \<Longrightarrow> x \<in> set ks \<Longrightarrow> (\<Sum>k\<leftarrow>ks. if x = k then a else (0::int)) = a"
  by (induction ks) (auto simp: sum_no_key)

lemma sum_by_key:
  fixes val :: "'e \<Rightarrow> int"
  assumes "distinct ks"
  shows "key ` set es \<subseteq> set ks \<Longrightarrow>
         (\<Sum>k\<leftarrow>ks. sum_list (map val (filter (\<lambda>e. key e = k) es))) = sum_list (map val es)"
proof (induction es)
  case Nil
  then show ?case by (simp add: sum_list_0)
next
  case (Cons e es)
  have "(\<Sum>k\<leftarrow>ks. sum_list (map val (filter (\<lambda>e. key e = k) (e # es)))) =
        (\<Sum>k\<leftarrow>ks. (if key e = k then val e else 0) + sum_list (map val (filter (\<lambda>e. key e = k) es)))"
    by (intro arg_cong[where f=sum_list] map_cong) auto
  also have "\<dots> = (\<Sum>k\<leftarrow>ks. if key e = k then val e else 0) +
                   (\<Sum>k\<leftarrow>ks. sum_list (map val (filter (\<lambda>e. key e = k) es)))"
    by (simp add: sum_list_addf)
  also have "\<dots> = val e + sum_list (map val es)"
    using Cons assms by (simp add: sum_single_key)
  finally show ?case by simp
qed

text \<open>The daily statistics of a grouping of the events \<open>es\<close>.\<close>

lemma grouped_stats:
  assumes g: "grouped fbd es" and s: "s \<in> set (allStatsOf dp fbd)"
  shows "DailyStat.totalAmount s = sum_list (map amount (filter (\<lambda>e. Event.date e = DailyStat.date s) es))"
    and "feedCount s = length (filter (\<lambda>e. Event.date e = DailyStat.date s) es)"
    and "1 \<le> feedCount s"
    and "DailyStat.averageAmount s = spec_round1 (of_int (DailyStat.totalAmount s) / of_nat (feedCount s))"
    and "DailyStat.date s \<in> Event.date ` set es"
proof -
  from s obtain k h where m: "map_of fbd k = Some h" and sk: "s = dayStat k h"
    by (rule allStatsOf_member)
  from g m have h: "feeds h = filter (\<lambda>e. Event.date e = k) es"
    "DayGroup.totalAmount h = sum_list (map amount (feeds h))"
    "DayGroup.count h = length (feeds h)"
    by (auto simp: grouped_def)
  from g m have k: "k \<in> Event.date ` set es" by (auto simp: grouped_def)
  show "DailyStat.totalAmount s = sum_list (map amount (filter (\<lambda>e. Event.date e = DailyStat.date s) es))"
    and "feedCount s = length (filter (\<lambda>e. Event.date e = DailyStat.date s) es)"
    and "DailyStat.date s \<in> Event.date ` set es"
    using h k by (simp_all add: sk)
  from k have "filter (\<lambda>e. Event.date e = k) es \<noteq> []"
    by (auto simp: filter_empty_conv)
  then show "1 \<le> feedCount s" using h by (simp add: sk Suc_le_eq)
  show "DailyStat.averageAmount s = spec_round1 (of_int (DailyStat.totalAmount s) / of_nat (feedCount s))"
    by (simp add: sk averageAmount_dayStat)
qed

lemma grouped_dates:
  assumes g: "grouped fbd es"
  shows "distinct (map DailyStat.date (allStatsOf dp fbd))"
    and "set (map DailyStat.date (allStatsOf dp fbd)) = Event.date ` set es"
proof -
  have m: "mset (map DailyStat.date (allStatsOf dp fbd)) = mset (map fst fbd)"
    by (rule mset_dates_allStatsOf)
  from g have d: "distinct (map fst fbd)" by (simp add: grouped_def)
  show "distinct (map DailyStat.date (allStatsOf dp fbd))"
    using m d by (metis mset_eq_imp_distinct_iff)
  have "set (map DailyStat.date (allStatsOf dp fbd)) = set (map fst fbd)"
    using m by (metis set_mset_mset)
  also have "\<dots> = Event.date ` set es"
    using g by (simp add: grouped_def dom_map_of_conv_image_fst [symmetric])
  finally show "set (map DailyStat.date (allStatsOf dp fbd)) = Event.date ` set es" .
qed

lemma grouped_total:
  assumes g: "grouped fbd es"
  shows "sum_list (map DailyStat.totalAmount (allStatsOf dp fbd)) = sum_list (map amount es)"
proof -
  let ?stats = "allStatsOf dp fbd"
  have "sum_list (map DailyStat.totalAmount ?stats) =
        (\<Sum>s\<leftarrow>?stats. sum_list (map amount (filter (\<lambda>e. Event.date e = DailyStat.date s) es)))"
    by (intro arg_cong[where f=sum_list] map_cong refl) (rule grouped_stats(1) [OF g])
  also have "\<dots> = (\<Sum>k\<leftarrow>map DailyStat.date ?stats.
                      sum_list (map amount (filter (\<lambda>e. Event.date e = k) es)))"
    by (simp add: comp_def)
  also have "\<dots> = sum_list (map amount es)"
  proof (rule sum_by_key)
    show "distinct (map DailyStat.date ?stats)" by (rule grouped_dates(1) [OF g])
    show "Event.date ` set es \<subseteq> set (map DailyStat.date ?stats)"
      unfolding grouped_dates(2) [OF g] by simp
  qed
  finally show ?thesis .
qed

subsection \<open>The outcomes of analyzeBottleFeeds\<close>

lemma findIndex_None: "findIndex p xs = None \<longleftrightarrow> (\<forall>x \<in> set xs. \<not> p x)"
  by (induction xs) auto

lemma findIndex_Some:
  "findIndex p xs = Some i \<Longrightarrow> i < length xs \<and> p (xs ! i) \<and> (\<forall>j < i. \<not> p (xs ! j))"
proof (induction xs arbitrary: i)
  case Nil
  then show ?case by simp
next
  case (Cons x xs)
  then show ?case by (auto simp: nth_Cons' less_Suc_eq_0_disj split: if_splits)
qed

lemma findIndex_name_None: "findIndex (\<lambda>h. h = name) headers = None \<longleftrightarrow> name \<notin> set headers"
  by (auto simp: findIndex_None)

lemma findIndex_name_Some: "findIndex (\<lambda>h. h = name) headers = Some i \<Longrightarrow> name \<in> set headers"
  using findIndex_name_None [of name headers] by auto

lemma four_columns:
  "(case findIndex (\<lambda>h. h = a) hs of
      None \<Rightarrow> E
    | Some ti \<Rightarrow>
    (case findIndex (\<lambda>h. h = b) hs of
      None \<Rightarrow> E
    | Some si \<Rightarrow>
    (case findIndex (\<lambda>h. h = c) hs of
      None \<Rightarrow> E
    | Some sli \<Rightarrow>
    (case findIndex (\<lambda>h. h = d) hs of
      None \<Rightarrow> E
    | Some eci \<Rightarrow> K ti si sli eci)))) =
   (if \<not> set [a, b, c, d] \<subseteq> set hs then E
    else K (columnOf a hs) (columnOf b hs) (columnOf c hs) (columnOf d hs))"
proof (cases "set [a, b, c, d] \<subseteq> set hs")
  case True
  then have "findIndex (\<lambda>h. h = a) hs \<noteq> None" "findIndex (\<lambda>h. h = b) hs \<noteq> None"
    "findIndex (\<lambda>h. h = c) hs \<noteq> None" "findIndex (\<lambda>h. h = d) hs \<noteq> None"
    by (simp_all add: findIndex_name_None)
  then obtain ti si sli eci where
    "findIndex (\<lambda>h. h = a) hs = Some ti" "findIndex (\<lambda>h. h = b) hs = Some si"
    "findIndex (\<lambda>h. h = c) hs = Some sli" "findIndex (\<lambda>h. h = d) hs = Some eci"
    by blast
  with True show ?thesis by (simp add: columnOf_def)
next
  case False
  then have "findIndex (\<lambda>h. h = a) hs = None \<or> findIndex (\<lambda>h. h = b) hs = None \<or>
             findIndex (\<lambda>h. h = c) hs = None \<or> findIndex (\<lambda>h. h = d) hs = None"
    by (auto simp: findIndex_name_None)
  with False show ?thesis by (auto split: option.splits)
qed

text \<open>\<^verbatim>\<open>analyzeBottleFeeds\<close> by its outcomes.\<close>

lemma analyzeBottleFeeds_eq:
  "analyzeBottleFeeds dp csvText =
     (if length (splitOn newline csvText) < 2 then Inl EmptyOrInvalid
      else if \<not> set requiredColumns \<subseteq> set (parseHeaders (splitOn newline csvText ! 0))
      then Inl ColumnsNotFound
      else if extractedFeeds csvText = [] then Inl NoValidFeeds
      else (case groupByDate [] (array_sort (compareFeeds dp) (extractedFeeds csvText)) of
              Inl e \<Rightarrow> Inl e
            | Inr feedsByDate \<Rightarrow>
                Inr (analysisResultOf dp (array_sort (compareFeeds dp) (extractedFeeds csvText))
                       feedsByDate)))"
proof -
  note fc = four_columns [where hs = "parseHeaders (splitOn newline csvText ! 0)"
      and E = "Inl ColumnsNotFound" and a = "''Type''" and b = "''Start''"
      and c = "''Start Location''" and d = "''End Condition''"
      and K = "\<lambda>ti si sli eci.
         if length (collectFeeds ti si sli eci (drop 1 (splitOn newline csvText))) = 0
         then Inl NoValidFeeds
         else (case groupByDate [] (array_sort (compareFeeds dp)
                       (collectFeeds ti si sli eci (drop 1 (splitOn newline csvText)))) of
                 Inl e \<Rightarrow> Inl e
               | Inr feedsByDate \<Rightarrow>
                   Inr (analysisResultOf dp (array_sort (compareFeeds dp)
                       (collectFeeds ti si sli eci (drop 1 (splitOn newline csvText))))
                          feedsByDate))"]
  show ?thesis
    unfolding analyzeBottleFeeds_def extractedFeeds_def requiredColumns_def Let_def
    by (subst fc) simp
qed

lemma analyzeBottleFeeds_rawFeeds:
  assumes "analyzeBottleFeeds dp csvText = Inr r" and "e \<in> set (rawFeeds r)"
  obtains ti si sli eci line where "extractFeed ti si sli eci line = Some e"
proof -
  let ?fs = "array_sort (compareFeeds dp) (extractedFeeds csvText)"
  from assms(1) have "rawFeeds r = ?fs"
    unfolding analyzeBottleFeeds_eq by (auto split: if_splits sum.splits)
  with assms(2) have "e \<in> set (extractedFeeds csvText)" by (simp add: set_array_sort)
  then show ?thesis
    unfolding extractedFeeds_def Let_def using that by (blast dest: collectFeeds_set)
qed

subsection \<open>The recent trend\<close>

lemma sum_list_ge_length:
  fixes f :: "'a \<Rightarrow> 'b::linordered_idom"
  shows "(\<And>x. x \<in> set xs \<Longrightarrow> 1 \<le> f x) \<Longrightarrow> of_nat (length xs) \<le> sum_list (map f xs)"
proof (induction xs)
  case Nil
  show ?case by simp
next
  case (Cons x xs)
  have "1 \<le> f x" by (rule Cons.prems) simp
  moreover have "of_nat (length xs) \<le> sum_list (map f xs)"
    by (rule Cons.IH) (simp add: Cons.prems)
  ultimately show ?case by simp
qed

lemma spec_round1_ge_1: "1 \<le> x \<Longrightarrow> 1 \<le> spec_round1 x"
proof -
  assume "1 \<le> x"
  then have "of_int 10 \<le> x * 10 + 1 / 2" by simp
  then have "10 \<le> math_round (x * 10)" unfolding math_round_def by (simp only: le_floor_iff)
  then have "(10::rat) \<le> of_int (math_round (x * 10))" by linarith
  then show ?thesis by (simp add: spec_round1_def)
qed

lemma averageAmount_ge_1:
  assumes g: "grouped fbd es" and pos: "\<And>e. e \<in> set es \<Longrightarrow> 0 < amount e"
    and s: "s \<in> set (allStatsOf dp fbd)"
  shows "1 \<le> DailyStat.averageAmount s"
proof -
  let ?day = "filter (\<lambda>e. Event.date e = DailyStat.date s) es"
  note st = grouped_stats [OF g s]
  have "int (length ?day) \<le> sum_list (map amount ?day)"
    using sum_list_ge_length [of ?day amount] pos by force
  then have "int (feedCount s) \<le> DailyStat.totalAmount s" by (simp add: st(1,2))
  then have "(of_nat (feedCount s) :: rat) \<le> of_int (DailyStat.totalAmount s)"
    by (metis of_int_le_iff of_int_of_nat_eq)
  moreover have "(0::rat) < of_nat (feedCount s)" using st(3) by simp
  ultimately have "1 \<le> (of_int (DailyStat.totalAmount s) :: rat) / of_nat (feedCount s)"
    by (simp add: le_divide_eq)
  then show ?thesis unfolding st(4) by (rule spec_round1_ge_1)
qed

lemma windowAvg_ge_1:
  assumes "days \<noteq> []" and "\<And>d. d \<in> set days \<Longrightarrow> 1 \<le> DailyStat.averageAmount d"
  shows "1 \<le> windowAvg days"
proof -
  have "(of_nat (length days) :: rat) \<le> sum_list (map DailyStat.averageAmount days)"
    by (rule sum_list_ge_length) (rule assms(2))
  moreover have "(0::rat) < of_nat (length days)" using assms(1) by simp
  ultimately show ?thesis unfolding windowAvg_def by (simp add: le_divide_eq)
qed

lemma slice_last_weeks:
  assumes "14 \<le> length xs"
  shows "slice xs (- 14) (- 7) = take 7 (drop (length xs - 14) xs)"
    and "sliceFrom xs (- 7) = drop (length xs - 7) xs"
  using assms
  by (auto simp: slice_def sliceFrom_def Let_def nat_diff_distrib' max_def min_def
      intro!: arg_cong2[where f=take] arg_cong2[where f=drop])

lemma percentChangeOf_finite:
  "older \<noteq> 0 \<Longrightarrow>
   percentChangeOf recent older = Finite (spec_round1 ((recent - older) / older * 100))"
proof -
  assume "older \<noteq> 0"
  then have "percentChangeOf recent older =
      Finite (of_int (math_round ((recent - older) / older * 1000)) / 10)"
    by (simp add: percentChangeOf_def js_div_def)
  then show ?thesis by (simp only: percentage_round1)
qed

section \<open>The properties\<close>

subsection \<open>C1: the recent trend and a zero older average\<close>



text \<open>
  The block that computes \<open>recentTrend\<close> has no test of the older average. Fourteen daily
  statistics with the average 0 are not the statistics of any accepted input; on them the
  block would divide 0 by 0 and return a trend whose percent change is \<^verbatim>\<open>NaN\<close>.
\<close>

lemma recentTrendOf_zero_average:
  "recentTrendOf (replicate 14 (sampleDay (''2023-03-01'', 0))) =
     Some \<lparr>recentAverage = 0, olderAverage = 0, percentChange = NaN\<rparr>"
  by code_simp

subsection \<open>C2: the events of a result\<close>




subsection \<open>C3: the trend history\<close>



text \<open>
  \<^verbatim>\<open>handleDataRequest\<close> passes the \<^verbatim>\<open>allStats\<close> of an analysis, which is ascending:
  its trend history is anchored at the indices of \<^verbatim>\<open>allStats\<close> itself.
\<close>

lemma allStats_ascending:
  "analyzeBottleFeeds dp csvText = Inr r \<Longrightarrow> ascending (compareStats dp) (allStats r)"
proof -
  assume "analyzeBottleFeeds dp csvText = Inr r"
  then obtain feeds fbd where "r = analysisResultOf dp feeds fbd"
    by (rule analyzeBottleFeeds_Inr)
  then show ?thesis
    by (simp add: allStatsOf_def ascending_sorted_stats)
qed

subsection \<open>C4: the errors\<close>



subsection \<open>C5: daily totals\<close>



subsection \<open>C6: the rows that yield an event\<close>

text \<open>
  C6. A row with enough fields yields an event if and only if its \<^verbatim>\<open>Start Location\<close> field
  contains \<^verbatim>\<open>Bottle\<close> as a substring, the first run of decimal digits of its
  \<^verbatim>\<open>End Condition\<close> field is a number other than 0, and the part of its \<^verbatim>\<open>Start\<close> field
  before the first space is not empty. The event has that part as its date and that
  number as its amount, and the time \<^verbatim>\<open>00:00\<close> when the \<^verbatim>\<open>Start\<close> field has no space.
\<close>

theorem extractFeed_iff:
  "max (max ti si) (max sli eci) < length (parseCSVLine line) \<Longrightarrow>
   (extractFeed ti si sli eci line \<noteq> None \<longleftrightarrow>
      sublist ''Bottle'' (parseCSVLine line ! sli) \<and>
      digitsVal (firstDigits (parseCSVLine line ! eci)) \<noteq> 0 \<and>
      takeWhile (\<lambda>c. c \<noteq> space) (parseCSVLine line ! si) \<noteq> []) \<and>
   (\<forall>e. extractFeed ti si sli eci line = Some e \<longrightarrow>
      Event.date e = takeWhile (\<lambda>c. c \<noteq> space) (parseCSVLine line ! si) \<and>
      amount e = digitsVal (firstDigits (parseCSVLine line ! eci)) \<and>
      (space \<notin> set (parseCSVLine line ! si) \<longrightarrow> time e = ''00:00''))"
proof -
  assume len: "max (max ti si) (max sli eci) < length (parseCSVLine line)"
  let ?start = "parseCSVLine line ! si"
  have si: "si < length (parseCSVLine line)" using len by simp
  have "?start \<noteq> [] \<Longrightarrow> hd ?start \<noteq> space"
    using parseCSVLine_field_trimmed [OF si] by (auto simp: isWhiteSpace_def)
  then have d: "takeWhile (\<lambda>c. c \<noteq> space) ?start \<noteq> [] \<longleftrightarrow> ?start \<noteq> []"
    by (cases ?start) auto
  show ?thesis
    unfolding extractFeed_eq Let_def d
    using len by (auto simp: splitOn_no_sep)
qed

text \<open>A row with a date and no time, read with the columns in the order of \<open>headerRow\<close>.\<close>

theorem extractFeed_iff_witness:
  "max (max 0 1) (max 2 3) < length (parseCSVLine noTimeRow) \<and>
   parseCSVLine noTimeRow = [''Feed'', ''2023-03-01'', ''Big Bottle'', ''approx 120 ml''] \<and>
   extractFeed 0 1 2 3 noTimeRow =
     Some \<lparr>Event.date = ''2023-03-01'', time = ''00:00'', hour = Some 0, amount = 120\<rparr> \<and>
   sublist ''Bottle'' (parseCSVLine noTimeRow ! 2) \<and>
   digitsVal (firstDigits (parseCSVLine noTimeRow ! 3)) = 120 \<and>
   space \<notin> set (parseCSVLine noTimeRow ! 1)"
proof -
  have v: "parseCSVLine noTimeRow = [''Feed'', ''2023-03-01'', ''Big Bottle'', ''approx 120 ml'']"
    by code_simp
  have e: "extractFeed 0 1 2 3 noTimeRow =
     Some \<lparr>Event.date = ''2023-03-01'', time = ''00:00'', hour = Some 0, amount = 120\<rparr>"
    by code_simp
  have len: "max (max 0 1) (max 2 3) < length (parseCSVLine noTimeRow)"
    by (simp add: v)
  have sp: "space \<notin> set (parseCSVLine noTimeRow ! 1)" by (simp add: v)
  from extractFeed_iff [OF len] e
  have "sublist ''Bottle'' (parseCSVLine noTimeRow ! 2)"
    and "digitsVal (firstDigits (parseCSVLine noTimeRow ! 3)) = 120"
    by auto
  with v e len sp show ?thesis by blast
qed

subsection \<open>C7: the time slots\<close>



subsection \<open>C8: quotes in the header row\<close>

text \<open>
  C8. The specification has every row, the header row included, split so that a comma
  inside double quotes is not a field boundary. \<^verbatim>\<open>parseCSVLine\<close> splits a data row so
  (\<open>length_parseCSVLine\<close>), and it strips the outer quotes of a field and trims it. The
  header row does not go through \<^verbatim>\<open>parseCSVLine\<close>: it is split at every comma. On
  \<open>quotedHeaderRow\<close> the header has six names where \<^verbatim>\<open>parseCSVLine\<close> finds five fields, so
  the required columns are looked for one position too far to the right: the data row, a
  bottle feed of 120 ml in the columns 1 to 4, has no field at position 5, is skipped, and
  the analysis fails for want of feeds.
\<close>

theorem header_split_inside_quotes:
  "parseHeaders quotedHeaderRow =
     [''Baby'', ''name'', ''Type'', ''Start'', ''Start Location'', ''End Condition''] \<and>
   parseCSVLine quotedHeaderRow =
     [''Baby, name'', ''Type'', ''Start'', ''Start Location'', ''End Condition''] \<and>
   parseCSVLine quotedDataRow =
     [''Doe, Josie'', ''Feed'', ''2023-03-01 08:00'', ''Bottle'', ''120ml''] \<and>
   extractFeed 1 2 3 4 quotedDataRow =
     Some \<lparr>Event.date = ''2023-03-01'', time = ''08:00'', hour = Some 8, amount = 120\<rparr> \<and>
   analyzeBottleFeeds digitsDate (quotedHeaderRow @ [newline] @ quotedDataRow) = Inl NoValidFeeds"
proof -
  have "parseHeaders quotedHeaderRow =
     [''Baby'', ''name'', ''Type'', ''Start'', ''Start Location'', ''End Condition'']"
    by code_simp
  moreover have "parseCSVLine quotedHeaderRow =
     [''Baby, name'', ''Type'', ''Start'', ''Start Location'', ''End Condition'']"
    by code_simp
  moreover have "parseCSVLine quotedDataRow =
     [''Doe, Josie'', ''Feed'', ''2023-03-01 08:00'', ''Bottle'', ''120ml'']"
    by code_simp
  moreover have "extractFeed 1 2 3 4 quotedDataRow =
     Some \<lparr>Event.date = ''2023-03-01'', time = ''08:00'', hour = Some 8, amount = 120\<rparr>"
    by code_simp
  moreover have "analyzeBottleFeeds digitsDate (quotedHeaderRow @ [newline] @ quotedDataRow) =
     Inl NoValidFeeds"
    by code_simp
  ultimately show ?thesis by blast
qed

subsection \<open>C9: every line is split\<close>

text \<open>
  C9. \<open>parseCSVLine\<close> is a total function: its loop is defined by recursion on the index
  \<open>i\<close>, and the definition was accepted with the proof that \<open>length line - i\<close> decreases
  in every round. It has no error result, so it returns a list of fields for every line,
  whether the quotes of the line are balanced or not: no field for a blank line, and
  otherwise one field more than the line has commas outside quotes. The row loop parses
  every line by itself, so whatever a line holds, the lines before and after it yield the
  events that they yield without it.
\<close>

theorem parseCSVLine_every_line:
  "length (parseCSVLine line) = (if trim line = [] then 0 else Suc (unquotedCommas False line)) \<and>
   collectFeeds ti si sli eci (before @ line # after) =
     collectFeeds ti si sli eci before @ collectFeeds ti si sli eci [line] @
     collectFeeds ti si sli eci after"
  using collectFeeds_append [of ti si sli eci before "line # after"]
        collectFeeds_append [of ti si sli eci "[line]" after]
  by (simp add: length_parseCSVLine)

text \<open>
  The row of scenario E: the quote before the date is never closed, so the rest of the row
  is one field, the row has too few fields and is skipped, and the row after it is read.
\<close>

lemma unbalancedRow_fields:
  "parseCSVLine unbalancedRow = [''Feed'', ''2023-03-01 08:00,Bottle,120ml'']"
  by code_simp

theorem parseCSVLine_every_line_witness:
  "trim unbalancedRow \<noteq> [] \<and>
   length (parseCSVLine unbalancedRow) = 2 \<and>
   collectFeeds 0 1 2 3 ([] @ unbalancedRow # [goodRow]) =
     [\<lparr>Event.date = ''2023-03-02'', time = ''09:15'', hour = Some 9, amount = 150\<rparr>]"
proof -
  have t: "trim unbalancedRow \<noteq> []" by code_simp
  have u: "unquotedCommas False unbalancedRow = 1" by code_simp
  have b: "collectFeeds 0 1 2 3 [] = []" "collectFeeds 0 1 2 3 [unbalancedRow] = []" by code_simp+
  have g: "collectFeeds 0 1 2 3 [goodRow] =
     [\<lparr>Event.date = ''2023-03-02'', time = ''09:15'', hour = Some 9, amount = 150\<rparr>]"
    by code_simp
  from parseCSVLine_every_line [of unbalancedRow 0 1 2 3 "[]" "[goodRow]"] t u
  show ?thesis unfolding b g by simp
qed

subsection \<open>C10: the array that calculateDailyTrends is given\<close>

text \<open>
  C10. \<^verbatim>\<open>calculateDailyTrends\<close> does not write to the array that it is given: after the
  call, the store holds at the address \<open>a\<close> of \<^verbatim>\<open>allStats\<close>, and at every other address
  that was allocated before the call, the array that it held before. The call sorts the
  copy that \<^verbatim>\<open>slice()\<close> allocates, and its result is that of \<open>calculateDailyTrends\<close> on
  the contents of \<^verbatim>\<open>allStats\<close>. So when \<^verbatim>\<open>handleDataRequest\<close> adds \<^verbatim>\<open>trendHistory\<close> to
  the object, the field \<^verbatim>\<open>allStats\<close> of the object refers to the same array as before, with
  the same contents.
\<close>

theorem calculateDailyTrends_keeps_allStats:
  "a < length st \<Longrightarrow>
     fst (calculateDailyTrends_st dp st a) ! a = st ! a \<and>
     take (length st) (fst (calculateDailyTrends_st dp st a)) = st \<and>
     snd (calculateDailyTrends_st dp st a) = calculateDailyTrends dp (st ! a) \<and>
     (allStatsRef obj = a \<longrightarrow>
        allStatsRef (snd (setTrendHistory dp st obj)) = a \<and>
        fst (setTrendHistory dp st obj) ! a = st ! a \<and>
        trendHistory (snd (setTrendHistory dp st obj)) = Some (calculateDailyTrends dp (st ! a)))"
  by (auto simp: setTrendHistory_def calculateDailyTrends_st_def calculateDailyTrends_def
      array_slice_st_def array_sort_st_def Let_def nth_append)

text \<open>A store whose one array is the fortnight in reverse order.\<close>

theorem calculateDailyTrends_keeps_allStats_witness:
  "(0::nat) < length [rev fortnight] \<and>
   allStatsRef \<lparr>allStatsRef = 0, trendHistory = None\<rparr> = 0 \<and>
   fst (calculateDailyTrends_st digitsDate [rev fortnight] 0) ! 0 = rev fortnight \<and>
   take (length [rev fortnight]) (fst (calculateDailyTrends_st digitsDate [rev fortnight] 0))
     = [rev fortnight] \<and>
   snd (calculateDailyTrends_st digitsDate [rev fortnight] 0)
     = calculateDailyTrends digitsDate (rev fortnight) \<and>
   fst (setTrendHistory digitsDate [rev fortnight] \<lparr>allStatsRef = 0, trendHistory = None\<rparr>) ! 0
     = rev fortnight"
  using calculateDailyTrends_keeps_allStats
    [of 0 "[rev fortnight]" digitsDate "\<lparr>allStatsRef = 0, trendHistory = None\<rparr>"]
  by simp

text \<open>
  The copy matters: \<^verbatim>\<open>sort\<close> on the array itself overwrites it, and the fortnight in
  reverse order is an array that sorting changes.
\<close>

lemma array_sort_st_overwrites:
  "fst (array_sort_st (compareStats digitsDate) [rev fortnight] 0) = [fortnight] \<and>
   rev fortnight \<noteq> fortnight"
proof -
  have "array_sort (compareStats digitsDate) (rev fortnight) = fortnight" by code_simp
  moreover have "hd (rev fortnight) \<noteq> hd fortnight" by code_simp
  ultimately show ?thesis by (auto simp: array_sort_st_def)
qed

end
